theory Spec2Isabelle
  imports Complex_Main "HOL-Library.Log_Nat" "HOL-Library.Monad_Syntax"
begin

section \<open>JavaScript numbers\<close>

text \<open>
  A JavaScript \<open>number\<close> is an IEEE double: \<open>NaN\<close>, one of the two infinities, or a
  finite value. A finite value is the rational it denotes. Where JavaScript produces a
  number from an exact value (reading a numeric literal or a text, subtracting), the
  exact value is rounded to the nearest double by \<open>to_double\<close> below. \<open>Fin 0\<close> stands for
  both zeros: the component never divides, its comparisons treat \<open>-0\<close> as \<open>0\<close>, and
  \<open>Math.max(0, -0)\<close> is \<open>+0\<close>.
\<close>

datatype jsnum = NaN | Fin rat | PInf | NInf

text \<open>The power of two with an integer exponent.\<close>

definition pow2 :: "int \<Rightarrow> rat" where
  "pow2 e = (if 0 \<le> e then 2 ^ nat e else 1 / 2 ^ nat (- e))"

text \<open>
  The binary exponent of a positive rational: the \<open>e\<close> with \<open>2^e \<le> r < 2^(e+1)\<close>
  (lemma \<open>ilog2_bounds\<close>), from the bit length of an integer next to \<open>r\<close> or to \<open>1 / r\<close>.
\<close>

definition ilog2 :: "rat \<Rightarrow> int" where
  "ilog2 r = (if 1 \<le> r then bitlen \<lfloor>r\<rfloor> - 1 else - bitlen (\<lceil>1 / r\<rceil> - 1))"

text \<open>The nearest integer, the even one on a tie.\<close>

definition round_half_even :: "rat \<Rightarrow> int" where
  "round_half_even x =
     (let f = \<lfloor>x\<rfloor>; d = x - of_int f in
      if d < 1 / 2 then f else if 1 / 2 < d then f + 1 else if even f then f else f + 1)"

text \<open>
  A positive rational rounded to 53 significant bits, ties to even: the spacing of the
  doubles around \<open>r\<close> is \<open>2^(e - 52)\<close>, with the exponent \<open>e\<close> no less than -1022 (below
  that the doubles are subnormal, all \<open>2^-1074\<close> apart).
\<close>

definition double_magnitude :: "rat \<Rightarrow> rat" where
  "double_magnitude r =
     (let q = pow2 (max (ilog2 r) (- 1022) - 52) in of_int (round_half_even (r / q)) * q)"

text \<open>
  The double nearest to a rational (round to nearest, ties to even): an infinity when
  the rounded magnitude reaches \<open>2^1024\<close>.
\<close>

definition to_double :: "rat \<Rightarrow> jsnum" where
  "to_double r =
     (if r = 0 then Fin 0
      else
        let m = double_magnitude \<bar>r\<bar> in
        if 2 ^ 1024 \<le> m then (if r < 0 then NInf else PInf)
        else Fin (if r < 0 then - m else m))"

text \<open>\<open>isNaN(x)\<close> on a number.\<close>

fun isNaN :: "jsnum \<Rightarrow> bool" where
  "isNaN NaN = True"
| "isNaN _ = False"

text \<open>\<open>a < b\<close> on numbers: false as soon as one side is \<open>NaN\<close>.\<close>

fun js_lt :: "jsnum \<Rightarrow> jsnum \<Rightarrow> bool" where
  "js_lt NaN _ = False"
| "js_lt _ NaN = False"
| "js_lt (Fin a) (Fin b) = (a < b)"
| "js_lt (Fin _) PInf = True"
| "js_lt (Fin _) NInf = False"
| "js_lt PInf _ = False"
| "js_lt NInf NInf = False"
| "js_lt NInf _ = True"

text \<open>\<open>a > b\<close> is \<open>b < a\<close>.\<close>

definition js_gt :: "jsnum \<Rightarrow> jsnum \<Rightarrow> bool" where
  "js_gt a b = js_lt b a"

text \<open>\<open>Math.max(a, b)\<close> and \<open>Math.min(a, b)\<close>: \<open>NaN\<close> if either argument is.\<close>

definition Math_max :: "jsnum \<Rightarrow> jsnum \<Rightarrow> jsnum" where
  "Math_max a b = (if isNaN a \<or> isNaN b then NaN else if js_lt a b then b else a)"

definition Math_min :: "jsnum \<Rightarrow> jsnum \<Rightarrow> jsnum" where
  "Math_min a b = (if isNaN a \<or> isNaN b then NaN else if js_lt b a then b else a)"

text \<open>\<open>a - b\<close> on numbers: the exact difference of two finite values, rounded.\<close>

fun js_sub :: "jsnum \<Rightarrow> jsnum \<Rightarrow> jsnum" where
  "js_sub NaN _ = NaN"
| "js_sub _ NaN = NaN"
| "js_sub (Fin a) (Fin b) = to_double (a - b)"
| "js_sub (Fin _) PInf = NInf"
| "js_sub (Fin _) NInf = PInf"
| "js_sub PInf PInf = NaN"
| "js_sub PInf _ = PInf"
| "js_sub NInf NInf = NaN"
| "js_sub NInf _ = NInf"

text \<open>
  \<open>+x.toFixed(2)\<close>: \<open>toFixed\<close> prints \<open>NaN\<close> and the infinities by name and a value of
  magnitude \<open>10^21\<close> or more in full, and unary plus reads all of these back unchanged.
  Below \<open>10^21\<close> it takes the sign off, picks the integer \<open>n\<close> with \<open>n / 100\<close> nearest
  to the magnitude (the larger one on a tie) and prints \<open>n / 100\<close> with the sign; unary
  plus reads that decimal as the nearest double.
\<close>

definition toFixed2 :: "jsnum \<Rightarrow> jsnum" where
  "toFixed2 x =
     (case x of
        Fin r \<Rightarrow>
          if 10 ^ 21 \<le> \<bar>r\<bar> then Fin r
          else if r < 0 then to_double (- (of_int (round (- r * 100)) / 100))
          else to_double (of_int (round (r * 100)) / 100)
      | _ \<Rightarrow> x)"

text \<open>A finite number: neither \<open>NaN\<close> nor an infinity.\<close>

definition isFinite :: "jsnum \<Rightarrow> bool" where
  "isFinite x = (case x of Fin _ \<Rightarrow> True | _ \<Rightarrow> False)"

text \<open>The closed interval the scores live in, by the comparisons the code itself uses.\<close>

definition in_range :: "jsnum \<Rightarrow> bool" where
  "in_range x = (\<not> isNaN x \<and> \<not> js_lt x (Fin 0) \<and> \<not> js_gt x (Fin 10))"

section \<open>Reading a number from the input text\<close>

text \<open>The character class \<open>\d\<close> of a JavaScript regular expression: the ten ASCII digits.\<close>

definition digit_val :: "char \<Rightarrow> nat option" where
  "digit_val = map_of
     [(CHR ''0'', 0), (CHR ''1'', 1), (CHR ''2'', 2), (CHR ''3'', 3), (CHR ''4'', 4),
      (CHR ''5'', 5), (CHR ''6'', 6), (CHR ''7'', 7), (CHR ''8'', 8), (CHR ''9'', 9)]"

definition is_digit :: "char \<Rightarrow> bool" where
  "is_digit c = (digit_val c \<noteq> None)"

text \<open>
  \<open>/^\d*\.?\d*$/.test(val)\<close>: a run of digits, then at most one dot, then a run of
  digits, and nothing else. The three parts match disjoint characters, so matching
  greedily from the left decides the test.
\<close>

definition regex_test :: "string \<Rightarrow> bool" where
  "regex_test val =
     (case dropWhile is_digit val of
        [] \<Rightarrow> True
      | c # t \<Rightarrow> c = CHR ''.'' \<and> list_all is_digit t)"

text \<open>The value of a run of digits read in base ten.\<close>

definition digits_val :: "string \<Rightarrow> nat" where
  "digits_val ds = foldl (\<lambda>acc c. 10 * acc + (case digit_val c of Some d \<Rightarrow> d | None \<Rightarrow> 0)) 0 ds"

text \<open>
  An unsigned decimal literal without exponent: digits, optionally a dot and more
  digits, with a digit on at least one side of the dot. \<open>None\<close> when the text is no
  such literal.
\<close>

definition unsigned_decimal :: "string \<Rightarrow> rat option" where
  "unsigned_decimal s =
     (let ip = takeWhile is_digit s in
      case dropWhile is_digit s of
        [] \<Rightarrow> if ip = [] then None else Some (of_nat (digits_val ip))
      | c # fp \<Rightarrow>
          if c = CHR ''.'' \<and> list_all is_digit fp \<and> (ip \<noteq> [] \<or> fp \<noteq> [])
          then Some (of_nat (digits_val ip) + of_nat (digits_val fp) / 10 ^ length fp)
          else None)"

text \<open>
  \<open>Number(val)\<close> on a string, for the texts made of an optional sign, digits and a
  dot: the empty string is 0, a decimal literal with an optional sign is the double
  nearest to its value (an infinity when that is out of the doubles' range), and any
  other such text is \<open>NaN\<close>. White space, exponents, radix prefixes and the word
  \<open>Infinity\<close> are not covered: \<open>handleInput\<close> calls \<open>Number\<close> only on a text that passed
  \<open>regex_test\<close>, which has none of them. The rounding is that of the exact decimal
  value, as the engines do it; the language would also let a literal of more than 20
  significant digits be cut to 20 first.
\<close>

definition js_Number :: "string \<Rightarrow> jsnum" where
  "js_Number s =
     (case s of
        [] \<Rightarrow> Fin 0
      | c # t \<Rightarrow>
          if c = CHR ''-''
          then (case unsigned_decimal t of None \<Rightarrow> NaN | Some v \<Rightarrow> to_double (- v))
          else if c = CHR ''+''
          then (case unsigned_decimal t of None \<Rightarrow> NaN | Some v \<Rightarrow> to_double v)
          else (case unsigned_decimal s of None \<Rightarrow> NaN | Some v \<Rightarrow> to_double v))"

section \<open>The editable skill row\<close>

text \<open>
  The two messages \<open>handleInput\<close> can set: \<open>NotNumeric\<close> is \<open>setError("Numbers only")\<close>,
  \<open>OutOfRange\<close> is \<open>setError("Value must be 0-10")\<close>; \<open>None\<close> is the empty message.
\<close>

datatype ValidationError = NotNumeric | OutOfRange

text \<open>The local state of a \<open>SkillEditRow\<close>.\<close>

record row_state =
  inputValue :: string
  error :: "ValidationError option"

text \<open>
  \<open>handleInput(val)\<close>: the new local state, and the argument of the call to
  \<open>onChange\<close> when one is made.
\<close>

definition handleInput :: "string \<Rightarrow> row_state \<Rightarrow> row_state \<times> jsnum option" where
  "handleInput val st =
     (let st1 = st\<lparr>inputValue := val\<rparr> in
      if \<not> regex_test val then (st1\<lparr>error := Some NotNumeric\<rparr>, None)
      else
        let num = js_Number val in
        if isNaN num \<or> js_lt num (Fin 0) \<or> js_gt num (Fin 10)
        then (st1\<lparr>error := Some OutOfRange\<rparr>, None)
        else (st1\<lparr>error := None\<rparr>, Some num))"

text \<open>
  The row's \<open>onChange\<close> is \<open>(val) => handleSkillScoreChange(idx, val)\<close>; the composition
  is \<open>edit_row\<close> below, after the dashboard state.
\<close>

section \<open>The skill records and the dashboard state\<close>

text \<open>
  The type \<open>Skill\<close>. \<open>ai_flagged\<close> is optional in the source. \<open>iteration_depth\<close> is
  declared a number, but \<open>exportPDF\<close> reads it through \<open>??\<close>, so the model lets it be
  absent (\<open>null\<close> or \<open>undefined\<close>) too. \<open>exportPDF\<close> also guards the two arrays
  against being absent; an absent array takes the branch of the empty one, so the
  model has the empty list for both.
\<close>

record Skill =
  skill :: string
  score :: jsnum
  code_snippets :: "string list"
  timestamps :: "string list"
  iteration_depth :: "jsnum option"
  ai_flagged :: "bool option"

text \<open>The state hooks of \<open>SkillRadarDashboard\<close>; \<open>dash_error\<close> is its \<open>error\<close> string.\<close>

record dashboard =
  skills :: "Skill list"
  selectedSkill :: "Skill option"
  darkMode :: bool
  loading :: bool
  dash_error :: string
  updatingIdx :: "nat option"

text \<open>The component's initial state, from the arguments of its \<open>useState\<close> calls.\<close>

definition initial_dashboard :: dashboard where
  "initial_dashboard =
     \<lparr>skills = [], selectedSkill = None, darkMode = False, loading = True,
      dash_error = [], updatingIdx = None\<rparr>"

text \<open>
  The records the mock \<open>fetchSkills\<close> resolves to. A score written \<open>8.2\<close> in the source
  is the double nearest to 8.2.
\<close>

definition fetchSkills_data :: "Skill list" where
  "fetchSkills_data =
     [\<lparr>skill = ''Algorithms'', score = to_double (15 / 2),
       code_snippets = [''function add(a, b) { return a + b; }''],
       timestamps = [''2025-08-06T13:45Z'', ''2025-08-06T14:30Z''],
       iteration_depth = Some (Fin 3), ai_flagged = Some True\<rparr>,
      \<lparr>skill = ''Data Structures'', score = to_double (41 / 5),
       code_snippets = [''class Stack { constructor() { this.items = []; } }''],
       timestamps = [''2025-08-06T11:00Z'', ''2025-08-06T12:30Z''],
       iteration_depth = Some (Fin 2), ai_flagged = Some False\<rparr>,
      \<lparr>skill = ''System Design'', score = to_double (51 / 10),
       code_snippets = [], timestamps = [],
       iteration_depth = Some (Fin 4), ai_flagged = Some True\<rparr>]"

text \<open>
  The loading effect, run once the promise of \<open>fetchSkills\<close> has settled: \<open>Inr data\<close>
  when it resolved to \<open>data\<close>, \<open>Inl ()\<close> when it rejected. \<open>setLoading(true)\<close> and
  \<open>setError("")\<close> come first, the \<open>finally\<close> branch last.
\<close>

definition load :: "unit + Skill list \<Rightarrow> dashboard \<Rightarrow> dashboard" where
  "load fetched st =
     (let st1 = st\<lparr>loading := True, dash_error := []\<rparr>;
          st2 = (case fetched of
                   Inr data \<Rightarrow> st1\<lparr>skills := data\<rparr>
                 | Inl _ \<Rightarrow> st1\<lparr>dash_error := ''Failed to load skills. Please try again later.''\<rparr>)
      in st2\<lparr>loading := False\<rparr>)"

text \<open>
  \<open>handleSkillScoreChange(idx, newScore)\<close>. The guard returns before any state is set.
  Past the guard the updater copies the array and writes the record at \<open>idx\<close> with its
  score replaced. For an \<open>idx\<close> at or beyond the length JavaScript would write an object
  with a score and no other field there, which is no \<open>Skill\<close>: the model gives \<open>None\<close>.
  The component passes the index of a rendered row only.
\<close>

definition handleSkillScoreChange :: "nat \<Rightarrow> jsnum \<Rightarrow> dashboard \<Rightarrow> dashboard option" where
  "handleSkillScoreChange idx newScore st =
     (if isNaN newScore \<or> js_lt newScore (Fin 0) \<or> js_gt newScore (Fin 10) then Some st
      else if idx < length (skills st) then
        Some (st\<lparr>updatingIdx := Some idx,
                 skills := (skills st)
                   [idx := (skills st ! idx)\<lparr>score := Math_max (Fin 0) (Math_min (Fin 10) newScore)\<rparr>]\<rparr>)
      else None)"

text \<open>Every record's score is in the interval; every call names a record that exists.\<close>

definition scores_in_range :: "dashboard \<Rightarrow> bool" where
  "scores_in_range st = list_all (\<lambda>s. in_range (score s)) (skills st)"

definition calls_in_bounds :: "dashboard \<Rightarrow> (nat \<times> jsnum) list \<Rightarrow> bool" where
  "calls_in_bounds st calls = list_all (\<lambda>c. fst c < length (skills st)) calls"

text \<open>The timer set by \<open>handleSkillScoreChange\<close>, when it fires.\<close>

definition updating_timeout :: "dashboard \<Rightarrow> dashboard" where
  "updating_timeout st = st\<lparr>updatingIdx := None\<rparr>"

text \<open>A sequence of calls \<open>handleSkillScoreChange(idx, newScore)\<close>, in order.\<close>

fun score_changes :: "(nat \<times> jsnum) list \<Rightarrow> dashboard \<Rightarrow> dashboard option" where
  "score_changes [] st = Some st"
| "score_changes ((idx, newScore) # cs) st =
     (case handleSkillScoreChange idx newScore st of
        None \<Rightarrow> None
      | Some st' \<Rightarrow> score_changes cs st')"

text \<open>
  An input event on the row rendered for index \<open>idx\<close>: \<open>handleInput\<close>, whose \<open>onChange\<close>
  is \<open>handleSkillScoreChange(idx, val)\<close>, and then the row's effect on \<open>[skill.score]\<close>:
  when the commit has changed the record's score, the effect sets the input text to
  \<open>skill.score.toString()\<close>. The conversion of a number to its text is the parameter
  \<open>toStr\<close>.
\<close>

definition edit_row ::
  "(jsnum \<Rightarrow> string) \<Rightarrow> nat \<Rightarrow> string \<Rightarrow> row_state \<times> dashboard \<Rightarrow> (row_state \<times> dashboard) option"
where
  "edit_row toStr idx val p =
     (case handleInput val (fst p) of
        (row, None) \<Rightarrow> Some (row, snd p)
      | (row, Some num) \<Rightarrow>
          (case handleSkillScoreChange idx num (snd p) of
             None \<Rightarrow> None
           | Some st \<Rightarrow>
               Some (if score (skills st ! idx) \<noteq> score (skills (snd p) ! idx)
                     then row\<lparr>inputValue := toStr (score (skills st ! idx))\<rparr>
                     else row, st)))"

section \<open>The chart data\<close>

record RadarPoint =
  rp_skill :: string
  rp_score :: jsnum

record TrendPoint =
  tp_skill :: string
  tp_first :: jsnum
  tp_last :: jsnum

text \<open>The callbacks of the two \<open>skills.map\<close> calls, and the maps themselves.\<close>

definition radar_point :: "Skill \<Rightarrow> RadarPoint" where
  "radar_point item = \<lparr>rp_skill = skill item, rp_score = score item\<rparr>"

definition trend_point :: "Skill \<Rightarrow> TrendPoint" where
  "trend_point item =
     \<lparr>tp_skill = skill item,
      tp_first = Math_max (Fin 0) (toFixed2 (js_sub (score item) (Fin 1))),
      tp_last = toFixed2 (score item)\<rparr>"

definition radarData :: "Skill list \<Rightarrow> RadarPoint list" where
  "radarData sks = map radar_point sks"

definition trendData :: "Skill list \<Rightarrow> TrendPoint list" where
  "trendData sks = map trend_point sks"

section \<open>The report\<close>

text \<open>
  The calls made on the \<open>jsPDF\<close> document, in order. \<open>Text s x y\<close> is
  \<open>doc.text(s, x, y)\<close>, \<open>TextMaxWidth s x y w\<close> the call with \<open>{ maxWidth: w }\<close>.
  The cursor \<open>y\<close> starts at 25 and grows by the integers 2, 5, 6 and 8: an \<open>int\<close>.
\<close>

datatype pdf_op =
    SetFontSize nat
  | SetFont string string
  | SetTextColor nat nat nat
  | Text string int int
  | TextMaxWidth string int int nat
  | AddPage
  | Save string

text \<open>
  What \<open>exportPDF\<close> takes from outside the component: \<open>doc.splitTextToSize(code, w)\<close>,
  \<open>new Date(t).toLocaleString()\<close>, and the text a template literal prints for a number.
\<close>

record pdf_env =
  splitTextToSize :: "string \<Rightarrow> nat \<Rightarrow> string list"
  toLocaleString :: "string \<Rightarrow> string"
  num_to_string :: "jsnum \<Rightarrow> string"

text \<open>\<open>xs.join(sep)\<close>.\<close>

fun join :: "string \<Rightarrow> string list \<Rightarrow> string" where
  "join sep [] = []"
| "join sep [x] = x"
| "join sep (x # y # ys) = x @ sep @ join sep (y # ys)"

text \<open>
  The separator of the attempts, byte for byte as the literal stands in the source
  file: a space, the seven bytes E2 80 9A C3 9C C3 AD, and a space.
\<close>

definition arrow_sep :: string where
  "arrow_sep =
     '' '' @ [CHR 0xE2, CHR 0x80, CHR 0x9A, CHR 0xC3, CHR 0x9C, CHR 0xC3, CHR 0xAD] @ '' ''"

text \<open>\<open>radarData.forEach\<close>: one line per point from \<open>y\<close> on, 8 apart; the cursor after.\<close>

fun radar_lines :: "pdf_env \<Rightarrow> RadarPoint list \<Rightarrow> int \<Rightarrow> pdf_op list \<times> int" where
  "radar_lines env [] y = ([], y)"
| "radar_lines env (d # ds) y =
     (let (ops, y') = radar_lines env ds (y + 8)
      in (Text (rp_skill d @ '': '' @ num_to_string env (rp_score d) @ ''/10'') 10 y # ops, y'))"

text \<open>\<open>lines.forEach\<close>: one wrapped line per call, 5 apart.\<close>

fun snippet_lines :: "string list \<Rightarrow> int \<Rightarrow> pdf_op list \<times> int" where
  "snippet_lines [] y = ([], y)"
| "snippet_lines (line # ls) y =
     (let (ops, y') = snippet_lines ls (y + 5) in (Text line 14 y # ops, y'))"

text \<open>\<open>item.code_snippets.forEach\<close>: each snippet wrapped to width 180 and written.\<close>

fun snippets :: "pdf_env \<Rightarrow> string list \<Rightarrow> int \<Rightarrow> pdf_op list \<times> int" where
  "snippets env [] y = ([], y)"
| "snippets env (code # cs) y =
     (let (ops1, y1) = snippet_lines (splitTextToSize env code 180) y;
          (ops2, y2) = snippets env cs y1
      in (ops1 @ ops2, y2))"

text \<open>The text of the attempts line of a record.\<close>

definition attempts_line :: "pdf_env \<Rightarrow> Skill \<Rightarrow> string" where
  "attempts_line env item =
     ''Attempts: '' @
       (if timestamps item \<noteq> []
        then join arrow_sep (map (toLocaleString env) (timestamps item))
        else ''N/A'')"

text \<open>
  The body of \<open>skills.forEach\<close> up to and including \<open>y += 2\<close>: the calls of one detail
  section written from cursor \<open>y\<close>, and the cursor after it.
\<close>

definition detail_section :: "pdf_env \<Rightarrow> Skill \<Rightarrow> int \<Rightarrow> pdf_op list \<times> int" where
  "detail_section env item y =
     (let header = [SetFont ''helvetica'' ''bold'', Text (skill item @ '' Details'') 10 y,
                    SetFont ''helvetica'' ''normal''];
          y1 = y + 6;
          attempts = [Text (attempts_line env item) 12 y1];
          y2 = y1 + 6;
          depth = [Text (''Iteration Depth: '' @
                     (case iteration_depth item of
                        Some n \<Rightarrow> num_to_string env n
                      | None \<Rightarrow> ''N/A'')) 12 y2];
          y3 = y2 + 6;
          (flag, y4) =
            (if ai_flagged item = Some True
             then ([SetTextColor 255 0 0, TextMaxWidth ''AI/Plagiarism Suspected'' 12 y3 180,
                    SetTextColor 0 0 0], y3 + 6)
             else ([], y3));
          label = [Text ''Code Snippets:'' 12 y4];
          y5 = y4 + 6;
          (code, y6) =
            (if code_snippets item \<noteq> [] then snippets env (code_snippets item) y5
             else ([Text ''N/A'' 14 y5], y5 + 6))
      in (header @ attempts @ depth @ flag @ label @ code, y6 + 2))"

text \<open>
  The first four calls of a detail section written from cursor \<open>y\<close>: the header in
  bold and the first body line, the attempts, 6 below it.
\<close>

definition section_head :: "pdf_env \<Rightarrow> Skill \<Rightarrow> int \<Rightarrow> pdf_op list" where
  "section_head env item y =
     [SetFont ''helvetica'' ''bold'', Text (skill item @ '' Details'') 10 y,
      SetFont ''helvetica'' ''normal'', Text (attempts_line env item) 12 (y + 6)]"

text \<open>
  \<open>skills.forEach((item, idx) => ...)\<close> from index \<open>idx\<close> on, \<open>n\<close> being
  \<open>skills.length\<close>: the section, then the test \<open>y > 270 && idx < skills.length - 1\<close>
  with \<open>doc.addPage()\<close> and \<open>y = 15\<close>.
\<close>

fun detail_sections :: "pdf_env \<Rightarrow> nat \<Rightarrow> nat \<Rightarrow> Skill list \<Rightarrow> int \<Rightarrow> pdf_op list" where
  "detail_sections env n idx [] y = []"
| "detail_sections env n idx (item # items) y =
     (let (ops, y') = detail_section env item y in
      if y' > 270 \<and> int idx < int n - 1
      then ops @ AddPage # detail_sections env n (Suc idx) items 15
      else ops @ detail_sections env n (Suc idx) items y')"

text \<open>
  \<open>exportPDF()\<close>, with the dashboard state passed through: the state after the call and
  the calls made on the document. \<open>radarData\<close> is the one computed from \<open>skills\<close> in the
  same render.
\<close>

definition exportPDF :: "pdf_env \<Rightarrow> dashboard \<Rightarrow> dashboard \<times> pdf_op list" where
  "exportPDF env st =
     (let title = [SetFontSize 18, Text ''Skill Radar Report'' 10 15, SetFontSize 12];
          (summary, y) = radar_lines env (radarData (skills st)) 25;
          details = detail_sections env (length (skills st)) 0 (skills st) (y + 5)
      in (st, title @ summary @ details @ [Save ''skill_report.pdf'']))"

subsection \<open>The report over a store of objects\<close>

text \<open>
  The same function with the objects it touches in a store, addressed by their index:
  the records, the array of the records (a list of addresses, in order) and the
  \<open>jsPDF\<close> document, which holds the calls made on it. A record's own arrays are part
  of its value. \<open>None\<close> is a \<open>TypeError\<close>: a call or a read on an address that holds no
  object of the right kind.
\<close>

datatype obj = Rec Skill | Arr "nat list" | Doc "pdf_op list"

type_synonym store = "obj list"

text \<open>A method call on the document at \<open>d\<close>: the one write \<open>exportPDF\<close> makes.\<close>

definition doc_call :: "nat \<Rightarrow> pdf_op \<Rightarrow> store \<Rightarrow> store option" where
  "doc_call d c h =
     (if d < length h
      then (case h ! d of Doc cs \<Rightarrow> Some (h[d := Doc (cs @ [c])]) | _ \<Rightarrow> None)
      else None)"

text \<open>Reading the record at \<open>a\<close>, for a field of \<open>item\<close>; reading the array at \<open>r\<close>.\<close>

definition read_skill :: "nat \<Rightarrow> store \<Rightarrow> Skill option" where
  "read_skill a h =
     (if a < length h then (case h ! a of Rec s \<Rightarrow> Some s | _ \<Rightarrow> None) else None)"

definition read_array :: "nat \<Rightarrow> store \<Rightarrow> nat list option" where
  "read_array r h =
     (if r < length h then (case h ! r of Arr as \<Rightarrow> Some as | _ \<Rightarrow> None) else None)"

text \<open>The collection a store holds at \<open>r\<close>: the records of the array, in its order.\<close>

definition store_skills :: "store \<Rightarrow> nat \<Rightarrow> Skill list option" where
  "store_skills h r = do { as \<leftarrow> read_array r h; those (map (\<lambda>a. read_skill a h) as) }"

text \<open>The three loops that write lines, each call on the document at \<open>d\<close>.\<close>

fun radar_store ::
  "pdf_env \<Rightarrow> nat \<Rightarrow> RadarPoint list \<Rightarrow> int \<Rightarrow> store \<Rightarrow> (store \<times> int) option" where
  "radar_store env d [] y h = Some (h, y)"
| "radar_store env d (p # ps) y h =
     do { h1 \<leftarrow> doc_call d
            (Text (rp_skill p @ '': '' @ num_to_string env (rp_score p) @ ''/10'') 10 y) h;
          radar_store env d ps (y + 8) h1 }"

fun lines_store :: "nat \<Rightarrow> string list \<Rightarrow> int \<Rightarrow> store \<Rightarrow> (store \<times> int) option" where
  "lines_store d [] y h = Some (h, y)"
| "lines_store d (line # ls) y h =
     do { h1 \<leftarrow> doc_call d (Text line 14 y) h; lines_store d ls (y + 5) h1 }"

fun snippets_store ::
  "pdf_env \<Rightarrow> nat \<Rightarrow> string list \<Rightarrow> int \<Rightarrow> store \<Rightarrow> (store \<times> int) option" where
  "snippets_store env d [] y h = Some (h, y)"
| "snippets_store env d (code # cs) y h =
     do { (h1, y1) \<leftarrow> lines_store d (splitTextToSize env code 180) y h;
          snippets_store env d cs y1 h1 }"

text \<open>
  The body of \<open>skills.forEach\<close> up to \<open>y += 2\<close>, statement by statement, for the record
  at address \<open>a\<close>: each use of \<open>item\<close> reads the record as the store holds it then.
\<close>

definition section_store ::
  "pdf_env \<Rightarrow> nat \<Rightarrow> nat \<Rightarrow> int \<Rightarrow> store \<Rightarrow> (store \<times> int) option" where
  "section_store env d a y h =
     do { h1 \<leftarrow> doc_call d (SetFont ''helvetica'' ''bold'') h;
          i1 \<leftarrow> read_skill a h1;
          h2 \<leftarrow> doc_call d (Text (skill i1 @ '' Details'') 10 y) h1;
          h3 \<leftarrow> doc_call d (SetFont ''helvetica'' ''normal'') h2;
          i2 \<leftarrow> read_skill a h3;
          h4 \<leftarrow> doc_call d (Text (attempts_line env i2) 12 (y + 6)) h3;
          i3 \<leftarrow> read_skill a h4;
          h5 \<leftarrow> doc_call d
            (Text (''Iteration Depth: '' @
               (case iteration_depth i3 of
                  Some n \<Rightarrow> num_to_string env n
                | None \<Rightarrow> ''N/A'')) 12 (y + 12)) h4;
          i4 \<leftarrow> read_skill a h5;
          (h6, y6) \<leftarrow>
            (if ai_flagged i4 = Some True
             then do { g1 \<leftarrow> doc_call d (SetTextColor 255 0 0) h5;
                       g2 \<leftarrow> doc_call d (TextMaxWidth ''AI/Plagiarism Suspected'' 12 (y + 18) 180) g1;
                       g3 \<leftarrow> doc_call d (SetTextColor 0 0 0) g2;
                       Some (g3, y + 24) }
             else Some (h5, y + 18));
          h7 \<leftarrow> doc_call d (Text ''Code Snippets:'' 12 y6) h6;
          i5 \<leftarrow> read_skill a h7;
          (h8, y8) \<leftarrow>
            (if code_snippets i5 \<noteq> []
             then snippets_store env d (code_snippets i5) (y6 + 6) h7
             else do { g \<leftarrow> doc_call d (Text ''N/A'' 14 (y6 + 6)) h7; Some (g, y6 + 12) });
          Some (h8, y8 + 2) }"

text \<open>\<open>skills.forEach\<close> over the addresses of the array, with the page test.\<close>

fun sections_store ::
  "pdf_env \<Rightarrow> nat \<Rightarrow> nat \<Rightarrow> nat \<Rightarrow> nat list \<Rightarrow> int \<Rightarrow> store \<Rightarrow> store option" where
  "sections_store env d n idx [] y h = Some h"
| "sections_store env d n idx (a # as) y h =
     do { (h1, y1) \<leftarrow> section_store env d a y h;
          if y1 > 270 \<and> int idx < int n - 1
          then do { h2 \<leftarrow> doc_call d AddPage h1; sections_store env d n (Suc idx) as 15 h2 }
          else sections_store env d n (Suc idx) as y1 h1 }"

text \<open>
  \<open>exportPDF()\<close> on a store: \<open>new jsPDF()\<close> puts a fresh document at the end of the
  store, \<open>rd\<close> is the \<open>radarData\<close> of the render, \<open>r\<close> the address of the \<open>skills\<close>
  array. The result is the store after the call.
\<close>

definition exportPDF_store :: "pdf_env \<Rightarrow> RadarPoint list \<Rightarrow> nat \<Rightarrow> store \<Rightarrow> store option" where
  "exportPDF_store env rd r h =
     do { let d = length h;
          h1 \<leftarrow> doc_call d (SetFontSize 18) (h @ [Doc []]);
          h2 \<leftarrow> doc_call d (Text ''Skill Radar Report'' 10 15) h1;
          h3 \<leftarrow> doc_call d (SetFontSize 12) h2;
          (h4, y) \<leftarrow> radar_store env d rd 25 h3;
          as \<leftarrow> read_array r h4;
          h5 \<leftarrow> sections_store env d (length as) 0 as (y + 5) h4;
          doc_call d (Save ''skill_report.pdf'') h5 }"

text \<open>
  A document surface and a state to run the report on: every snippet wraps to 50
  lines, so a section with a snippet ends past the threshold of 270; the state holds
  the first two of the fetched records.
\<close>

definition sample_env :: pdf_env where
  "sample_env =
     \<lparr>splitTextToSize = (\<lambda>code w. replicate 50 code), toLocaleString = (\<lambda>t. t),
      num_to_string = (\<lambda>n. ''n'')\<rparr>"

definition two_skills :: dashboard where
  "two_skills = load (Inr (take 2 fetchSkills_data)) initial_dashboard"

text \<open>A store with the fetched records at 0, 1 and 2 and their array at 3.\<close>

definition sample_store :: store where
  "sample_store = map Rec fetchSkills_data @ [Arr [0, 1, 2]]"

text \<open>The text with a one and \<open>n\<close> zeros: the decimal numeral of \<open>10^n\<close>.\<close>

definition one_and_zeros :: "nat \<Rightarrow> string" where
  "one_and_zeros n = CHR ''1'' # replicate n CHR ''0''"

section \<open>Rounding to a double\<close>

lemma pow2_pos: "0 < pow2 e"
  by (simp add: pow2_def)

lemma pow2_Suc: "pow2 (e + 1) = 2 * pow2 e"
proof (cases "0 \<le> e")
  case True
  then show ?thesis by (simp add: pow2_def nat_add_distrib)
next
  case False
  then have "nat (- e) = Suc (nat (- (e + 1)))" by simp
  with False show ?thesis by (simp add: pow2_def del: nat_diff_distrib)
qed

lemma ilog2_bounds:
  assumes "0 < r"
  shows "pow2 (ilog2 r) \<le> r \<and> r < pow2 (ilog2 r + 1)"
proof (cases "1 \<le> r")
  case True
  let ?n = "\<lfloor>r\<rfloor>"
  from True have n: "0 < ?n" by simp
  from bitlen_bounds [OF n] have b: "2 ^ nat (bitlen ?n - 1) \<le> ?n" "?n < 2 ^ nat (bitlen ?n)"
    by auto
  from n have bl: "1 \<le> bitlen ?n" by (simp add: bitlen_alt_def)
  from b(1) have "of_int (2 ^ nat (bitlen ?n - 1)) \<le> r" by (simp only: le_floor_iff)
  then have lo: "2 ^ nat (bitlen ?n - 1) \<le> r" by simp
  from b(2) have "r < of_int (2 ^ nat (bitlen ?n))" by (simp only: floor_less_iff)
  then have hi: "r < 2 ^ nat (bitlen ?n)" by simp
  from True bl lo hi show ?thesis by (simp add: ilog2_def pow2_def)
next
  case False
  let ?m = "\<lceil>1 / r\<rceil> - 1"
  from False assms have r1: "1 < 1 / r" by (simp add: field_simps)
  then have m: "0 < ?m" by linarith
  from bitlen_bounds [OF m] have b: "2 ^ nat (bitlen ?m - 1) \<le> ?m" "?m < 2 ^ nat (bitlen ?m)"
    by auto
  from m have bl: "1 \<le> bitlen ?m" by (simp add: bitlen_alt_def)
  from b(2) have "\<lceil>1 / r\<rceil> \<le> 2 ^ nat (bitlen ?m)" by simp
  then have "1 / r \<le> of_int (2 ^ nat (bitlen ?m))" by (simp only: ceiling_le_iff)
  then have "1 / r \<le> 2 ^ nat (bitlen ?m)" by simp
  then have lo: "1 / 2 ^ nat (bitlen ?m) \<le> r"
    using assms by (simp add: field_simps)
  from b(1) have "2 ^ nat (bitlen ?m - 1) < \<lceil>1 / r\<rceil>" by simp
  then have "of_int (2 ^ nat (bitlen ?m - 1)) < 1 / r" by (simp only: less_ceiling_iff)
  then have "2 ^ nat (bitlen ?m - 1) < 1 / r" by simp
  then have hi: "r < 1 / 2 ^ nat (bitlen ?m - 1)"
    using assms by (simp add: field_simps)
  have p1: "pow2 (- bitlen ?m) = 1 / 2 ^ nat (bitlen ?m)" using bl by (simp add: pow2_def)
  have p2: "pow2 (- bitlen ?m + 1) = 1 / 2 ^ nat (bitlen ?m - 1)"
  proof (cases "bitlen ?m = 1")
    case True
    then show ?thesis by (simp add: pow2_def)
  next
    case False
    with bl have "\<not> 0 \<le> - bitlen ?m + 1" by simp
    moreover have "- (- bitlen ?m + 1) = bitlen ?m - 1" by simp
    ultimately show ?thesis by (simp only: pow2_def if_False)
  qed
  from False have "ilog2 r = - bitlen ?m" by (simp add: ilog2_def)
  with p1 p2 lo hi show ?thesis by simp
qed

lemma round_half_even_ge_floor: "\<lfloor>x\<rfloor> \<le> round_half_even x"
  by (simp add: round_half_even_def Let_def)

lemma round_half_even_nonneg: "0 \<le> x \<Longrightarrow> 0 \<le> round_half_even x"
proof -
  assume "0 \<le> x"
  then have "0 \<le> \<lfloor>x\<rfloor>" by simp
  then show ?thesis using round_half_even_ge_floor [of x] by linarith
qed

lemma double_magnitude_nonneg: "0 \<le> r \<Longrightarrow> 0 \<le> double_magnitude r"
  using round_half_even_nonneg [of "r / pow2 (max (ilog2 r) (- 1022) - 52)"]
    pow2_pos [of "max (ilog2 r) (- 1022) - 52"]
  by (simp add: double_magnitude_def Let_def)

lemma to_double_nonneg: "0 \<le> r \<Longrightarrow> to_double r = PInf \<or> (\<exists>q. to_double r = Fin q \<and> 0 \<le> q)"
  using double_magnitude_nonneg [of "\<bar>r\<bar>"] by (auto simp: to_double_def Let_def)

lemma to_double_nonpos: "r \<le> 0 \<Longrightarrow> to_double r = NInf \<or> (\<exists>q. to_double r = Fin q \<and> q \<le> 0)"
  using double_magnitude_nonneg [of "\<bar>r\<bar>"] by (auto simp: to_double_def Let_def)

lemma pow2_add: "pow2 (a + b) = pow2 a * pow2 b"
proof -
  have "pow2 e = 2 powi e" for e
    by (simp add: pow2_def power_int_def field_simps)
  then show ?thesis by (simp add: power_int_add)
qed

lemma pow2_mono: "a \<le> b \<Longrightarrow> pow2 a \<le> pow2 b"
proof -
  have "pow2 e = 2 powi e" for e
    by (simp add: pow2_def power_int_def field_simps)
  then show "a \<le> b \<Longrightarrow> pow2 a \<le> pow2 b" by (simp add: power_int_increasing)
qed

lemma to_double_overflow:
  assumes "2 ^ 1024 \<le> r"
  shows "to_double r = PInf"
proof -
  have "(0::rat) < 2 ^ 1024" by simp
  then have r: "0 < r" using assms by (rule less_le_trans)
  let ?e = "ilog2 r"
  have e: "1024 \<le> ?e"
  proof (rule ccontr)
    assume "\<not> 1024 \<le> ?e"
    then have "?e + 1 \<le> 1024" by simp
    then have "pow2 (?e + 1) \<le> pow2 1024" by (rule pow2_mono)
    moreover have "pow2 1024 = 2 ^ 1024" by (simp add: pow2_def)
    ultimately show False using ilog2_bounds [OF r] assms by linarith
  qed
  let ?q = "pow2 (?e - 52)"
  have q: "0 < ?q" by (rule pow2_pos)
  from e have mx: "max ?e (- 1022) = ?e" by simp
  have "pow2 ?e = pow2 52 * ?q" using pow2_add [of 52 "?e - 52"] by simp
  moreover have "pow2 52 = 2 ^ 52" by (simp add: pow2_def)
  ultimately have "2 ^ 52 * ?q \<le> r" using ilog2_bounds [OF r] by simp
  then have "2 ^ 52 \<le> r / ?q" using q by (simp add: field_simps)
  then have "of_int (2 ^ 52) \<le> r / ?q" by simp
  then have "2 ^ 52 \<le> \<lfloor>r / ?q\<rfloor>" by (simp only: le_floor_iff)
  then have "2 ^ 52 \<le> round_half_even (r / ?q)"
    using round_half_even_ge_floor [of "r / ?q"] by linarith
  then have "(of_int (2 ^ 52) :: rat) \<le> of_int (round_half_even (r / ?q))"
    by (simp only: of_int_le_iff)
  then have "2 ^ 52 * ?q \<le> of_int (round_half_even (r / ?q)) * ?q"
    using q by simp
  moreover have "2 ^ 52 * ?q = pow2 ?e"
    using \<open>pow2 ?e = pow2 52 * ?q\<close> \<open>pow2 52 = 2 ^ 52\<close> by simp
  moreover have "pow2 1024 \<le> pow2 ?e" using e by (rule pow2_mono)
  moreover have "pow2 1024 = 2 ^ 1024" by (simp add: pow2_def)
  ultimately have "2 ^ 1024 \<le> double_magnitude r"
    using mx by (simp add: double_magnitude_def Let_def)
  with r show ?thesis by (simp add: to_double_def Let_def)
qed


lemma to_double_not_NaN: "\<not> isNaN (to_double r)"
  by (simp add: to_double_def Let_def)

lemma to_double_zero: "to_double 0 = Fin 0"
  by (simp add: to_double_def)


lemma pow2_strict_mono: "a < b \<Longrightarrow> pow2 a < pow2 b"
proof -
  have "pow2 e = 2 powi e" for e
    by (simp add: pow2_def power_int_def field_simps)
  then show "a < b \<Longrightarrow> pow2 a < pow2 b" by (simp add: power_int_strict_increasing)
qed

lemma ilog2_unique:
  assumes "pow2 e \<le> r" "r < pow2 (e + 1)"
  shows "ilog2 r = e"
proof -
  from assms(1) pow2_pos [of e] have r: "0 < r" by linarith
  note b = ilog2_bounds [OF r]
  have "\<not> ilog2 r < e"
  proof
    assume "ilog2 r < e"
    then have "pow2 (ilog2 r + 1) \<le> pow2 e" by (intro pow2_mono) simp
    with b assms(1) show False by linarith
  qed
  moreover have "\<not> e < ilog2 r"
  proof
    assume "e < ilog2 r"
    then have "pow2 (e + 1) \<le> pow2 (ilog2 r)" by (intro pow2_mono) simp
    with b assms(2) show False by linarith
  qed
  ultimately show ?thesis by linarith
qed

lemma round_half_even_unique:
  assumes "\<bar>x - of_int n\<bar> < 1 / 2"
  shows "round_half_even x = n"
proof -
  have f: "of_int \<lfloor>x\<rfloor> \<le> x" "x < of_int \<lfloor>x\<rfloor> + 1" by linarith+
  from assms have n: "of_int n - 1 / 2 < x" "x < of_int n + 1 / 2" by linarith+
  have "(of_int n :: rat) < of_int \<lfloor>x\<rfloor> + 3 / 2" using f n by linarith
  then have "(of_int n :: rat) < of_int (\<lfloor>x\<rfloor> + 2)" by simp
  then have u: "n < \<lfloor>x\<rfloor> + 2" by (simp only: of_int_less_iff)
  have "(of_int \<lfloor>x\<rfloor> :: rat) < of_int n + 1 / 2" using f n by linarith
  then have "(of_int \<lfloor>x\<rfloor> :: rat) < of_int (n + 1)" by simp
  then have l: "\<lfloor>x\<rfloor> < n + 1" by (simp only: of_int_less_iff)
  from u l consider "n = \<lfloor>x\<rfloor>" | "n = \<lfloor>x\<rfloor> + 1" by linarith
  then show ?thesis
  proof cases
    case 1
    with n have "x - of_int \<lfloor>x\<rfloor> < 1 / 2" by simp
    with 1 show ?thesis by (simp add: round_half_even_def Let_def)
  next
    case 2
    with n have "1 / 2 < x - of_int \<lfloor>x\<rfloor>" by simp
    with 2 show ?thesis by (simp add: round_half_even_def Let_def)
  qed
qed

text \<open>
  A certificate for a rounding: the exponent \<open>e\<close> and the integer \<open>n\<close> of the result,
  checked by comparisons of rationals.
\<close>

lemma to_double_cert:
  assumes "pow2 e \<le> r" "r < pow2 (e + 1)" "- 1022 \<le> e"
    and "2 * \<bar>r - of_int n * pow2 (e - 52)\<bar> < pow2 (e - 52)"
    and "of_int n * pow2 (e - 52) < 2 ^ 1024"
  shows "to_double r = Fin (of_int n * pow2 (e - 52))"
proof -
  let ?q = "pow2 (e - 52)"
  have q: "0 < ?q" by (rule pow2_pos)
  from assms(1) pow2_pos [of e] have r: "0 < r" by linarith
  have e: "ilog2 r = e" using assms(1,2) by (rule ilog2_unique)
  have "\<bar>r / ?q - of_int n\<bar> = \<bar>r - of_int n * ?q\<bar> / ?q"
    using q by (simp add: field_simps abs_mult [symmetric] del: abs_mult)
  also have "\<dots> < 1 / 2" using assms(4) q by (simp add: field_simps)
  finally have "round_half_even (r / ?q) = n" by (rule round_half_even_unique)
  with e assms(3) have "double_magnitude r = of_int n * ?q"
    by (simp add: double_magnitude_def Let_def max_def)
  with r assms(5) show ?thesis by (simp add: to_double_def Let_def)
qed

lemma toFixed2_cert:
  assumes "0 \<le> r" "r < 10 ^ 21" "\<bar>r * 100 - of_int n\<bar> < 1 / 2"
  shows "toFixed2 (Fin r) = to_double (of_int n / 100)"
proof -
  from assms(3) have "of_int n > r * 100 - 1 / 2" "of_int n \<le> r * 100 + 1 / 2" by linarith+
  then have "round (r * 100) = n" by (rule round_unique)
  with assms(1,2) show ?thesis by (simp add: toFixed2_def)
qed

text \<open>The doubles of some decimals: the fetched scores, a text just above 10, and 0.1.\<close>

lemma double_7_5: "to_double (15 / 2) = Fin (15 / 2)"
  using to_double_cert [of 2 "15 / 2" "15 * 2 ^ 49"] by (simp add: pow2_def)

lemma double_8_2: "to_double (41 / 5) = Fin (2308094809027379 / 2 ^ 48)"
  using to_double_cert [of 3 "41 / 5" 4616189618054758] by (simp add: pow2_def)

lemma double_5_1: "to_double (51 / 10) = Fin (2871044762448691 / 2 ^ 49)"
  using to_double_cert [of 2 "51 / 10" 5742089524897382] by (simp add: pow2_def)


lemma double_tenth: "to_double (1 / 10) = Fin (3602879701896397 / 2 ^ 55)"
  using to_double_cert [of "- 4" "1 / 10" 7205759403792794] by (simp add: pow2_def)

section \<open>Input validation\<close>

lemmas input_eval = handleInput_def regex_test_def js_Number_def js_gt_def is_digit_def
  digit_val_def unsigned_decimal_def digits_val_def

lemma not_digit_sign: "\<not> is_digit CHR ''-''" "\<not> is_digit CHR ''+''" "\<not> is_digit CHR ''.''"
  by (simp_all add: is_digit_def digit_val_def)

lemma regex_test_first:
  assumes "regex_test (c # t)"
  shows "c \<noteq> CHR ''-'' \<and> c \<noteq> CHR ''+''"
proof (cases "is_digit c")
  case True
  then show ?thesis using not_digit_sign by auto
next
  case False
  with assms show ?thesis by (simp add: regex_test_def)
qed

lemma unsigned_decimal_regex:
  assumes "regex_test val" "val \<noteq> []" "val \<noteq> ''.''"
  shows "\<exists>r. unsigned_decimal val = Some r \<and> 0 \<le> r"
proof (cases "dropWhile is_digit val")
  case Nil
  then have "takeWhile is_digit val = val"
    by (metis append_Nil2 takeWhile_dropWhile_id)
  then show ?thesis
    unfolding unsigned_decimal_def Let_def Nil using assms(2)
    by (simp del: takeWhile_eq_all_conv)
next
  case (Cons c fp)
  with assms(1) have c: "c = CHR ''.''" and fp: "list_all is_digit fp"
    by (simp_all add: regex_test_def)
  have "takeWhile is_digit val @ c # fp = val"
    using Cons by (metis takeWhile_dropWhile_id)
  with assms(3) c have "takeWhile is_digit val \<noteq> [] \<or> fp \<noteq> []"
    by auto
  with Cons c fp show ?thesis
    by (auto simp: unsigned_decimal_def Let_def)
qed

text \<open>A text that passes the format test reads as the double of a rational that is not
  negative, the lone dot apart.\<close>

lemma js_Number_regex:
  assumes "regex_test val" "val \<noteq> ''.''"
  shows "\<exists>r. js_Number val = to_double r \<and> 0 \<le> r"
proof (cases val)
  case Nil
  then have "js_Number val = to_double 0" by (simp add: js_Number_def to_double_zero)
  then show ?thesis by blast
next
  case (Cons c t)
  with assms(1) have "c \<noteq> CHR ''-'' \<and> c \<noteq> CHR ''+''"
    using regex_test_first by blast
  moreover from assms Cons obtain r where "unsigned_decimal val = Some r" "0 \<le> r"
    using unsigned_decimal_regex by blast
  ultimately have "js_Number val = to_double r" using Cons by (simp add: js_Number_def)
  with \<open>0 \<le> r\<close> show ?thesis by blast
qed

lemma js_Number_dot: "regex_test ''.'' \<and> js_Number ''.'' = NaN"
  by (simp add: input_eval)

lemma regex_NaN_iff: "(regex_test val \<and> isNaN (js_Number val)) = (val = ''.'')"
proof (cases "val = ''.''")
  case True
  then show ?thesis using js_Number_dot by simp
next
  case False
  then show ?thesis using js_Number_regex [of val] to_double_not_NaN by auto
qed


text \<open>A text of digits only passes the format test and reads as the double of its value.\<close>

lemma digits_only:
  assumes "list_all is_digit s" "s \<noteq> []"
  shows "regex_test s \<and> js_Number s = to_double (of_nat (digits_val s))"
proof -
  from assms(1) have d: "dropWhile is_digit s = []" and t: "takeWhile is_digit s = s"
    by (simp_all add: list_all_iff)
  from assms obtain c cs where s: "s = c # cs" and c: "is_digit c"
    by (cases s) auto
  from c have "c \<noteq> CHR ''-'' \<and> c \<noteq> CHR ''+''" using not_digit_sign by auto
  moreover have "unsigned_decimal s = Some (of_nat (digits_val s))"
    unfolding unsigned_decimal_def Let_def d t using assms(2) by simp
  ultimately show ?thesis using d s by (simp add: regex_test_def js_Number_def)
qed

lemma digits_val_snoc_zero: "digits_val (ds @ [CHR ''0'']) = 10 * digits_val ds"
  by (simp add: digits_val_def digit_val_def)

lemma one_and_zeros_Suc: "one_and_zeros (Suc n) = one_and_zeros n @ [CHR ''0'']"
  by (simp add: one_and_zeros_def replicate_append_same)

lemma digits_val_one_and_zeros: "digits_val (one_and_zeros n) = 10 ^ n"
proof (induction n)
  case 0
  show ?case by (simp add: one_and_zeros_def digits_val_def digit_val_def)
next
  case (Suc n)
  then show ?case by (simp only: one_and_zeros_Suc digits_val_snoc_zero) simp
qed

lemma one_and_zeros_digits: "list_all is_digit (one_and_zeros n) \<and> one_and_zeros n \<noteq> []"
  by (simp add: one_and_zeros_def is_digit_def digit_val_def list_all_iff)

text \<open>A one with 309 zeros passes the format test and reads as \<open>Infinity\<close>.\<close>

lemma js_Number_huge: "regex_test (one_and_zeros 309) \<and> js_Number (one_and_zeros 309) = PInf"
proof -
  have "(2::rat) ^ 1024 \<le> 10 ^ 309" by simp
  then have "to_double (of_nat (10 ^ 309)) = PInf"
    by (intro to_double_overflow) simp
  then show ?thesis
    using digits_only [OF one_and_zeros_digits [THEN conjunct1] one_and_zeros_digits [THEN conjunct2], of 309]
    by (simp add: digits_val_one_and_zeros)
qed


text \<open>
  C1: on the empty input \<open>handleInput\<close> should fail and commit nothing. The code does
  otherwise: the empty string passes the format test, \<open>Number("")\<close> is 0, which the
  \<open>isNaN\<close> guard lets through, so the error is cleared and \<open>onChange(0)\<close> is called. The
  score of the edited record, the third of the fetched records and 5.1 before, becomes
  0, and the row's effect then sets its input text to the text of 0. The lone dot, the
  other text that passes the format test without being a number, is held: no call to
  \<open>onChange\<close> is made for it.
\<close>

theorem empty_input_commits_zero:
  "handleInput [] \<lparr>inputValue = ''5.1'', error = None\<rparr>
     = (\<lparr>inputValue = [], error = None\<rparr>, Some (Fin 0))
   \<and> map score (skills (load (Inr fetchSkills_data) initial_dashboard))
     = [to_double (15 / 2), to_double (41 / 5), to_double (51 / 10)]
   \<and> map_option (map score \<circ> skills \<circ> snd)
       (edit_row toStr 2 [] (\<lparr>inputValue = ''5.1'', error = None\<rparr>,
                             load (Inr fetchSkills_data) initial_dashboard))
     = Some [to_double (15 / 2), to_double (41 / 5), Fin 0]
   \<and> map_option fst
       (edit_row toStr 2 [] (\<lparr>inputValue = ''5.1'', error = None\<rparr>,
                             load (Inr fetchSkills_data) initial_dashboard))
     = Some \<lparr>inputValue = toStr (Fin 0), error = None\<rparr>
   \<and> to_double (51 / 10) \<noteq> Fin 0
   \<and> snd (handleInput ''.'' \<lparr>inputValue = ''5.1'', error = None\<rparr>) = None"
  by (simp add: input_eval edit_row_def handleSkillScoreChange_def load_def
      fetchSkills_data_def initial_dashboard_def Math_max_def Math_min_def double_5_1)

text \<open>
  C4, as stated: a text that passes the format test and reads as a non-finite number,
  such as the lone dot, fails with \<open>NotNumeric\<close> and not with \<open>OutOfRange\<close>. It does not
  hold: the lone dot passes the format test, reads as \<open>NaN\<close>, and the message set is the
  one of the range check.
\<close>

theorem dot_input_reports_out_of_range:
  "regex_test ''.'' \<and> js_Number ''.'' = NaN
   \<and> handleInput ''.'' \<lparr>inputValue = ''5.1'', error = None\<rparr>
       = (\<lparr>inputValue = ''.'', error = Some OutOfRange\<rparr>, None)"
  by (simp add: input_eval)

text \<open>
  C4, amended: every text that passes the format test and reads as a non-finite number
  (the lone dot, which reads as \<open>NaN\<close>, or digits beyond the range of the doubles, which
  read as \<open>Infinity\<close>) fails with \<open>OutOfRange\<close>, the message of the range check, and makes
  no call to \<open>onChange\<close>. The texts that pass the format test and read as \<open>NaN\<close> are the
  lone dot and nothing else.
\<close>

theorem non_finite_input_reports_out_of_range:
  "(regex_test val \<and> \<not> isFinite (js_Number val) \<longrightarrow>
      handleInput val st = (st\<lparr>inputValue := val, error := Some OutOfRange\<rparr>, None))
   \<and> ((regex_test val \<and> isNaN (js_Number val)) = (val = ''.''))"
proof -
  have "handleInput val st = (st\<lparr>inputValue := val, error := Some OutOfRange\<rparr>, None)"
    if "regex_test val" "\<not> isFinite (js_Number val)"
    using that by (cases "js_Number val") (simp_all add: handleInput_def isFinite_def js_gt_def)
  then show ?thesis using regex_NaN_iff by blast
qed

theorem non_finite_input_reports_out_of_range_witness:
  "regex_test ''.'' \<and> \<not> isFinite (js_Number ''.'')
   \<and> handleInput ''.'' \<lparr>inputValue = ''5.1'', error = None\<rparr>
       = (\<lparr>inputValue = ''.'', error = Some OutOfRange\<rparr>, None)
   \<and> regex_test (one_and_zeros 309) \<and> js_Number (one_and_zeros 309) = PInf
   \<and> \<not> isFinite (js_Number (one_and_zeros 309))
   \<and> handleInput (one_and_zeros 309) \<lparr>inputValue = ''5.1'', error = None\<rparr>
       = (\<lparr>inputValue = one_and_zeros 309, error = Some OutOfRange\<rparr>, None)"
  using non_finite_input_reports_out_of_range [of "''.''" "\<lparr>inputValue = ''5.1'', error = None\<rparr>"]
    non_finite_input_reports_out_of_range
      [of "one_and_zeros 309" "\<lparr>inputValue = ''5.1'', error = None\<rparr>"]
    js_Number_dot js_Number_huge
  by (simp add: isFinite_def)




section \<open>Loading and changing scores\<close>

text \<open>
  C2, as stated: \<open>load\<close> fails when two records of the input share a name, and installs
  nothing then. It does not hold: the loading effect has no check of the names. The
  fetched records twice over have each name twice, and they are installed as the
  collection, with no error set.
\<close>

theorem load_installs_duplicate_names:
  "\<not> distinct (map skill (fetchSkills_data @ fetchSkills_data))
   \<and> skills initial_dashboard = []
   \<and> skills (load (Inr (fetchSkills_data @ fetchSkills_data)) initial_dashboard)
       = fetchSkills_data @ fetchSkills_data
   \<and> dash_error (load (Inr (fetchSkills_data @ fetchSkills_data)) initial_dashboard) = []"
  by (simp add: load_def fetchSkills_data_def initial_dashboard_def)

text \<open>
  C2, amended: \<open>load\<close> replaces the collection by the fetched records as they are, with
  no check of their names, and sets no error; it fails only when the fetch itself
  fails, and then the collection is unchanged and the error message is set. Either way
  the loading flag ends false.
\<close>

theorem load_installs_fetched_records:
  "skills (load (Inr data) st) = data
   \<and> dash_error (load (Inr data) st) = []
   \<and> skills (load (Inl e) st) = skills st
   \<and> dash_error (load (Inl e) st) = ''Failed to load skills. Please try again later.''
   \<and> loading (load fetched st) = False"
  by (simp add: load_def Let_def)

lemma clamp_in_range: "in_range v \<Longrightarrow> Math_max (Fin 0) (Math_min (Fin 10) v) = v"
  by (cases v) (auto simp: in_range_def Math_max_def Math_min_def js_gt_def)

lemma guard_in_range:
  "(isNaN v \<or> js_lt v (Fin 0) \<or> js_gt v (Fin 10)) = (\<not> in_range v)"
  by (auto simp: in_range_def)

text \<open>
  C3, as stated: a candidate above 10 makes the record's score 10, one below 0 makes it
  0. It does not hold: the guard of \<open>handleSkillScoreChange\<close> returns on such a
  candidate before any state is set. With 12 or with -1 for the third fetched record
  the state, and the score 5.1 in it, stay as they were.
\<close>

theorem score_change_rejects_out_of_range:
  "map score (skills (load (Inr fetchSkills_data) initial_dashboard))
     = [to_double (15 / 2), to_double (41 / 5), to_double (51 / 10)]
   \<and> handleSkillScoreChange 2 (Fin 12) (load (Inr fetchSkills_data) initial_dashboard)
     = Some (load (Inr fetchSkills_data) initial_dashboard)
   \<and> handleSkillScoreChange 2 (Fin (- 1)) (load (Inr fetchSkills_data) initial_dashboard)
     = Some (load (Inr fetchSkills_data) initial_dashboard)"
  by (simp add: handleSkillScoreChange_def load_def js_gt_def
      fetchSkills_data_def initial_dashboard_def)

text \<open>
  C3, amended: for every existing record and every candidate in the interval from 0 to
  10, \<open>handleSkillScoreChange\<close> replaces the record's score by the candidate, which is
  its own clamp, and marks the index as updating; a candidate outside the interval
  (above 10, below 0 or \<open>NaN\<close>) is rejected and the state is unchanged.
\<close>

theorem score_change_in_range_replaces:
  "(idx < length (skills st) \<and> in_range v \<longrightarrow>
      handleSkillScoreChange idx v st
        = Some (st\<lparr>updatingIdx := Some idx,
                    skills := (skills st)[idx := (skills st ! idx)\<lparr>score := v\<rparr>]\<rparr>))
   \<and> (\<not> in_range v \<longrightarrow> handleSkillScoreChange idx v st = Some st)"
  by (simp add: handleSkillScoreChange_def guard_in_range clamp_in_range)

theorem score_change_in_range_replaces_witness:
  "(2::nat) < length (skills (load (Inr fetchSkills_data) initial_dashboard))
   \<and> in_range (Fin (25 / 4)) \<and> \<not> in_range (Fin 12)
   \<and> map_option (map score \<circ> skills)
        (handleSkillScoreChange 2 (Fin (25 / 4)) (load (Inr fetchSkills_data) initial_dashboard))
      = Some [to_double (15 / 2), to_double (41 / 5), Fin (25 / 4)]
   \<and> handleSkillScoreChange 2 (Fin 12) (load (Inr fetchSkills_data) initial_dashboard)
      = Some (load (Inr fetchSkills_data) initial_dashboard)"
  using score_change_in_range_replaces
          [of 2 "load (Inr fetchSkills_data) initial_dashboard" "Fin (25 / 4)"]
        score_change_in_range_replaces
          [of 2 "load (Inr fetchSkills_data) initial_dashboard" "Fin 12"]
  by (simp add: in_range_def js_gt_def load_def fetchSkills_data_def initial_dashboard_def)

lemma change_keeps_range:
  assumes "scores_in_range st" "idx < length (skills st)"
  shows "\<exists>st'. handleSkillScoreChange idx v st = Some st'
           \<and> length (skills st') = length (skills st) \<and> scores_in_range st'"
proof (cases "in_range v")
  case False
  with assms show ?thesis
    by (simp add: handleSkillScoreChange_def guard_in_range)
next
  case True
  have "list_all (\<lambda>s. in_range (score s)) ((skills st)[idx := (skills st ! idx)\<lparr>score := v\<rparr>])"
    using assms True
    by (auto simp: scores_in_range_def list_all_iff
        dest!: set_update_subset_insert [THEN subsetD])
  with True assms show ?thesis
    by (simp add: handleSkillScoreChange_def guard_in_range clamp_in_range scores_in_range_def)
qed

lemma changes_keep_range:
  "scores_in_range st \<Longrightarrow> calls_in_bounds st calls \<Longrightarrow>
   \<exists>st'. score_changes calls st = Some st'
      \<and> length (skills st') = length (skills st) \<and> scores_in_range st'"
proof (induction calls arbitrary: st)
  case Nil
  then show ?case by simp
next
  case (Cons c cs)
  obtain idx v where c: "c = (idx, v)" by (cases c)
  with Cons.prems obtain st1 where st1: "handleSkillScoreChange idx v st = Some st1"
      "length (skills st1) = length (skills st)" "scores_in_range st1"
    using change_keeps_range [of st idx v] by (auto simp: calls_in_bounds_def)
  with Cons.prems have "calls_in_bounds st1 cs" by (simp add: calls_in_bounds_def)
  from Cons.IH [OF st1(3) this] st1 c show ?case by auto
qed

text \<open>
  C6: from a state whose scores are all in the interval from 0 to 10, every sequence of
  calls of \<open>handleSkillScoreChange\<close> on existing records, whatever the numbers passed,
  runs to a state with the same number of records whose scores are all in the
  interval. A candidate outside the interval (\<open>NaN\<close>, -0.01 and 10.01 among them)
  leaves the whole state, and so the prior score, unchanged; a \<open>NaN\<close> candidate is a
  silent no-op. The bounds 0 and 10 are in the interval.
\<close>

theorem score_changes_keep_range:
  "(scores_in_range st \<and> calls_in_bounds st calls \<longrightarrow>
      (\<exists>st'. score_changes calls st = Some st'
         \<and> length (skills st') = length (skills st) \<and> scores_in_range st'))
   \<and> (\<not> in_range v \<longrightarrow> handleSkillScoreChange idx v st = Some st)
   \<and> handleSkillScoreChange idx NaN st = Some st
   \<and> \<not> in_range NaN \<and> \<not> in_range (Fin (- 1 / 100)) \<and> \<not> in_range (Fin (1001 / 100))
   \<and> in_range (Fin 0) \<and> in_range (Fin 10)"
  using changes_keep_range [of st calls]
  by (simp add: handleSkillScoreChange_def guard_in_range in_range_def js_gt_def)

theorem score_changes_keep_range_witness:
  "scores_in_range (load (Inr fetchSkills_data) initial_dashboard)
   \<and> calls_in_bounds (load (Inr fetchSkills_data) initial_dashboard)
       [(2, NaN), (0, Fin (- 1 / 100)), (1, Fin (1001 / 100)), (2, Fin (25 / 4)), (0, Fin 10)]
   \<and> map_option (map score \<circ> skills)
       (score_changes
          [(2, NaN), (0, Fin (- 1 / 100)), (1, Fin (1001 / 100)), (2, Fin (25 / 4)), (0, Fin 10)]
          (load (Inr fetchSkills_data) initial_dashboard))
     = Some [Fin 10, to_double (41 / 5), Fin (25 / 4)]
   \<and> handleSkillScoreChange 0 (Fin (1001 / 100)) (load (Inr fetchSkills_data) initial_dashboard)
     = Some (load (Inr fetchSkills_data) initial_dashboard)"
  using score_changes_keep_range
          [of "load (Inr fetchSkills_data) initial_dashboard"
              "[(2, NaN), (0, Fin (- 1 / 100)), (1, Fin (1001 / 100)), (2, Fin (25 / 4)), (0, Fin 10)]"
              "Fin (1001 / 100)" 0]
  by (simp add: scores_in_range_def calls_in_bounds_def in_range_def js_gt_def load_def
      fetchSkills_data_def initial_dashboard_def handleSkillScoreChange_def
      Math_max_def Math_min_def double_7_5 double_8_2 double_5_1)

section \<open>The chart data are one point per record\<close>

lemma round_nonneg: "0 \<le> (x::rat) \<Longrightarrow> 0 \<le> round x"
  using round_mono [of 0 x] by simp

lemma toFixed2_zero: "toFixed2 (Fin 0) = Fin 0"
  by (simp add: toFixed2_def to_double_zero)

lemma toFixed2_nonneg:
  assumes "0 \<le> r"
  shows "toFixed2 (Fin r) = PInf \<or> (\<exists>q. toFixed2 (Fin r) = Fin q \<and> 0 \<le> q)"
proof (cases "10 ^ 21 \<le> \<bar>r\<bar>")
  case True
  then show ?thesis using assms by (simp add: toFixed2_def)
next
  case False
  then have "toFixed2 (Fin r) = to_double (of_int (round (r * 100)) / 100)"
    using assms by (simp add: toFixed2_def)
  moreover have "0 \<le> (of_int (round (r * 100)) / 100 :: rat)"
    using round_nonneg [of "r * 100"] assms by simp
  ultimately show ?thesis using to_double_nonneg by simp
qed

lemma toFixed2_neg:
  assumes "r < 0"
  shows "toFixed2 (Fin r) = NInf \<or> (\<exists>q. toFixed2 (Fin r) = Fin q \<and> q \<le> 0)"
proof (cases "10 ^ 21 \<le> \<bar>r\<bar>")
  case True
  then show ?thesis using assms by (simp add: toFixed2_def)
next
  case False
  then have "toFixed2 (Fin r) = to_double (- (of_int (round (- r * 100)) / 100))"
    using assms by (simp add: toFixed2_def)
  moreover have "- (of_int (round (- r * 100)) / 100 :: rat) \<le> 0"
    using round_nonneg [of "- r * 100"] assms by simp
  ultimately show ?thesis using to_double_nonpos by simp
qed

text \<open>Rounding to 2 decimals and taking the maximum with 0 commute.\<close>

lemma max_toFixed2: "Math_max (Fin 0) (toFixed2 x) = toFixed2 (Math_max (Fin 0) x)"
proof (cases x)
  case (Fin r)
  show ?thesis
  proof (cases "0 \<le> r")
    case True
    show ?thesis
    proof (cases "r = 0")
      case True
      then show ?thesis using Fin by (simp add: toFixed2_zero Math_max_def)
    next
      case False
      with True have r: "0 < r" by simp
      from toFixed2_nonneg [OF True] show ?thesis
        using Fin r by (auto simp: Math_max_def)
    qed
  next
    case False
    then have "r < 0" by simp
    from toFixed2_neg [OF this] show ?thesis
      using False Fin by (auto simp: Math_max_def toFixed2_zero)
  qed
qed (simp_all add: Math_max_def toFixed2_def to_double_zero)

lemma max_to_double_nonneg: "0 \<le> r \<Longrightarrow> Math_max (Fin 0) (to_double r) = to_double r"
  using to_double_nonneg [of r] by (auto simp: Math_max_def)

text \<open>What \<open>toFixed2\<close> gives is the double of a decimal with 2 places next to its argument.\<close>

lemma toFixed2_nearest:
  assumes "\<bar>s\<bar> < 10 ^ 21"
  shows "\<exists>n. toFixed2 (Fin s) = to_double (of_int n / 100) \<and> \<bar>of_int n / 100 - s\<bar> \<le> 1 / 200"
proof (cases "s < 0")
  case False
  let ?n = "round (s * 100)"
  have "\<bar>of_int ?n - s * 100\<bar> \<le> 1 / 2" by (rule of_int_round_abs_le)
  then have "\<bar>of_int ?n / 100 - s\<bar> \<le> 1 / 200" by (simp add: field_simps)
  moreover have "toFixed2 (Fin s) = to_double (of_int ?n / 100)"
    using False assms by (simp add: toFixed2_def)
  ultimately show ?thesis by blast
next
  case True
  let ?n = "- round (- s * 100)"
  define R :: rat where "R = of_int (round (- s * 100))"
  have "\<bar>R - (- s * 100)\<bar> \<le> 1 / 2" unfolding R_def by (rule of_int_round_abs_le)
  then have "\<bar>- R / 100 - s\<bar> \<le> 1 / 200" by linarith
  then have "\<bar>of_int ?n / 100 - s\<bar> \<le> 1 / 200" by (simp add: R_def)
  moreover have "toFixed2 (Fin s) = to_double (of_int ?n / 100)"
    using True assms by (simp add: toFixed2_def)
  ultimately show ?thesis by blast
qed

text \<open>The trend points of four scores: 7.5, 8.2, 5.1 and 7.456.\<close>

lemma trend_point_7_5:
  assumes "score item = to_double (15 / 2)"
  shows "trend_point item
     = \<lparr>tp_skill = skill item, tp_first = to_double (13 / 2), tp_last = to_double (15 / 2)\<rparr>"
proof -
  have d: "to_double (15 / 2) = Fin (15 / 2)"
    using to_double_cert [of 2 "15 / 2" 8444249301319680] by (simp add: pow2_def)
  have a: "to_double (13 / 2) = Fin (13 / 2)"
    using to_double_cert [of 2 "13 / 2" 7318349394477056] by (simp add: pow2_def)
  have b: "toFixed2 (Fin (13 / 2)) = to_double (13 / 2)"
    using toFixed2_cert [of "13 / 2" 650] by simp
  have c: "toFixed2 (Fin (15 / 2)) = to_double (15 / 2)"
    using toFixed2_cert [of "15 / 2" 750] by simp
  show ?thesis
    using max_to_double_nonneg [of "13 / 2"]
    by (simp add: trend_point_def assms d a b c)
qed

lemma trend_point_8_2:
  assumes "score item = to_double (41 / 5)"
  shows "trend_point item
     = \<lparr>tp_skill = skill item, tp_first = to_double (36 / 5), tp_last = to_double (41 / 5)\<rparr>"
proof -
  have d: "to_double (41 / 5) = Fin (2308094809027379 / 281474976710656)"
    using to_double_cert [of 3 "41 / 5" 4616189618054758] by (simp add: pow2_def)
  have a: "to_double (2026619832316723 / 281474976710656) = Fin (2026619832316723 / 281474976710656)"
    using to_double_cert [of 2 "2026619832316723 / 281474976710656" 8106479329266892] by (simp add: pow2_def)
  have b: "toFixed2 (Fin (2026619832316723 / 281474976710656)) = to_double (36 / 5)"
    using toFixed2_cert [of "2026619832316723 / 281474976710656" 720] by simp
  have c: "toFixed2 (Fin (2308094809027379 / 281474976710656)) = to_double (41 / 5)"
    using toFixed2_cert [of "2308094809027379 / 281474976710656" 820] by simp
  show ?thesis
    using max_to_double_nonneg [of "36 / 5"]
    by (simp add: trend_point_def assms d a b c)
qed

lemma trend_point_5_1:
  assumes "score item = to_double (51 / 10)"
  shows "trend_point item
     = \<lparr>tp_skill = skill item, tp_first = to_double (41 / 10), tp_last = to_double (51 / 10)\<rparr>"
proof -
  have d: "to_double (51 / 10) = Fin (2871044762448691 / 562949953421312)"
    using to_double_cert [of 2 "51 / 10" 5742089524897382] by (simp add: pow2_def)
  have a: "to_double (2308094809027379 / 562949953421312) = Fin (2308094809027379 / 562949953421312)"
    using to_double_cert [of 2 "2308094809027379 / 562949953421312" 4616189618054758] by (simp add: pow2_def)
  have b: "toFixed2 (Fin (2308094809027379 / 562949953421312)) = to_double (41 / 10)"
    using toFixed2_cert [of "2308094809027379 / 562949953421312" 410] by simp
  have c: "toFixed2 (Fin (2871044762448691 / 562949953421312)) = to_double (51 / 10)"
    using toFixed2_cert [of "2871044762448691 / 562949953421312" 510] by simp
  show ?thesis
    using max_to_double_nonneg [of "41 / 10"]
    by (simp add: trend_point_def assms d a b c)
qed

lemma trend_point_7_456:
  assumes "score item = to_double (932 / 125)"
  shows "trend_point item
     = \<lparr>tp_skill = skill item, tp_first = to_double (323 / 50), tp_last = to_double (373 / 50)\<rparr>"
proof -
  have d: "to_double (932 / 125) = Fin (8394709705418605 / 1125899906842624)"
    using to_double_cert [of 2 "932 / 125" 8394709705418605] by (simp add: pow2_def)
  have a: "to_double (7268809798575981 / 1125899906842624) = Fin (7268809798575981 / 1125899906842624)"
    using to_double_cert [of 2 "7268809798575981 / 1125899906842624" 7268809798575981] by (simp add: pow2_def)
  have b: "toFixed2 (Fin (7268809798575981 / 1125899906842624)) = to_double (323 / 50)"
    using toFixed2_cert [of "7268809798575981 / 1125899906842624" 646] by simp
  have c: "toFixed2 (Fin (8394709705418605 / 1125899906842624)) = to_double (373 / 50)"
    using toFixed2_cert [of "8394709705418605 / 1125899906842624" 746] by simp
  show ?thesis
    using max_to_double_nonneg [of "323 / 50"]
    by (simp add: trend_point_def assms d a b c)
qed

lemma trend_point_low:
  assumes "s \<le> 1"
  shows "tp_first (trend_point (item\<lparr>score := Fin s\<rparr>)) = Fin 0"
proof -
  have "Math_max (Fin 0) (to_double (s - 1)) = Fin 0"
    using to_double_nonpos [of "s - 1"] assms by (auto simp: Math_max_def)
  then have "toFixed2 (Math_max (Fin 0) (js_sub (Fin s) (Fin 1))) = Fin 0"
    by (simp add: toFixed2_zero)
  then show ?thesis by (simp add: trend_point_def max_toFixed2)
qed

text \<open>
  C8: for every record, the trend point has \<open>last\<close> (current) equal to the score rounded
  to 2 decimals and \<open>first\<close> (previous) equal to the maximum of 0 and the score minus 1,
  rounded to 2 decimals; \<open>trendData\<close> is these points, one per record. A record of score
  0, or of any score up to 1, has previous 0, and no previous value is below 0.
  Rounding to 2 decimals gives the double of a decimal with 2 places within 0.005 of the
  number rounded, and the score minus 1 is the double of the exact difference. For the
  fetched scores 7.5, 8.2 and 5.1 the previous values are 6.5, 7.2 and 4.1 and the
  current ones the scores; a score of 7.456 has current 7.46 and previous 6.46, neither
  of them the score.
\<close>

theorem trend_point_values:
  "trendData sks = map trend_point sks
   \<and> tp_skill (trend_point item) = skill item
   \<and> tp_last (trend_point item) = toFixed2 (score item)
   \<and> tp_first (trend_point item) = toFixed2 (Math_max (Fin 0) (js_sub (score item) (Fin 1)))
   \<and> tp_first (trend_point (item\<lparr>score := Fin 0\<rparr>)) = Fin 0
   \<and> \<not> js_lt (tp_first (trend_point item)) (Fin 0)
   \<and> (\<bar>s\<bar> < 10 ^ 21 \<longrightarrow>
        (\<exists>n. toFixed2 (Fin s) = to_double (of_int n / 100) \<and> \<bar>of_int n / 100 - s\<bar> \<le> 1 / 200))
   \<and> js_sub (Fin s) (Fin 1) = to_double (s - 1)
   \<and> (s \<le> 1 \<longrightarrow> tp_first (trend_point (item\<lparr>score := Fin s\<rparr>)) = Fin 0)
   \<and> map tp_first (trendData fetchSkills_data)
        = [to_double (13 / 2), to_double (36 / 5), to_double (41 / 10)]
   \<and> map tp_last (trendData fetchSkills_data)
        = [to_double (15 / 2), to_double (41 / 5), to_double (51 / 10)]
   \<and> trend_point (item\<lparr>score := to_double (7456 / 1000)\<rparr>)
        = \<lparr>tp_skill = skill item, tp_first = to_double (646 / 100), tp_last = to_double (746 / 100)\<rparr>
   \<and> to_double (646 / 100) \<noteq> to_double (7456 / 1000)
   \<and> to_double (746 / 100) \<noteq> to_double (7456 / 1000)"
proof -
  have first: "tp_first (trend_point i) = toFixed2 (Math_max (Fin 0) (js_sub (score i) (Fin 1)))"
    for i
    by (simp add: trend_point_def max_toFixed2)
  have "\<not> js_lt (Math_max (Fin 0) y) (Fin 0)" for y
    by (cases y) (auto simp: Math_max_def)
  then have nonneg: "\<not> js_lt (tp_first (trend_point item)) (Fin 0)"
    by (simp add: trend_point_def)
  have zero: "tp_first (trend_point (item\<lparr>score := Fin 0\<rparr>)) = Fin 0"
    by (rule trend_point_low) simp
  have general: "trendData sks = map trend_point sks
      \<and> tp_skill (trend_point item) = skill item
      \<and> tp_last (trend_point item) = toFixed2 (score item)"
    by (simp add: trendData_def trend_point_def)
  have firsts: "map tp_first (trendData fetchSkills_data)
        = [to_double (13 / 2), to_double (36 / 5), to_double (41 / 10)]"
    by (simp add: trendData_def fetchSkills_data_def trend_point_7_5 trend_point_8_2
        trend_point_5_1)
  have lasts: "map tp_last (trendData fetchSkills_data)
        = [to_double (15 / 2), to_double (41 / 5), to_double (51 / 10)]"
    by (simp add: trendData_def fetchSkills_data_def trend_point_7_5 trend_point_8_2
        trend_point_5_1)
  have ex: "trend_point (item\<lparr>score := to_double (7456 / 1000)\<rparr>)
        = \<lparr>tp_skill = skill item, tp_first = to_double (646 / 100), tp_last = to_double (746 / 100)\<rparr>"
    using trend_point_7_456 [of "item\<lparr>score := to_double (7456 / 1000)\<rparr>"] by simp
  have d1: "to_double (932 / 125) = Fin (8394709705418605 / 1125899906842624)"
    using to_double_cert [of 2 "932 / 125" 8394709705418605] by (simp add: pow2_def)
  have d2: "to_double (323 / 50) = Fin (7273313398203351 / 1125899906842624)"
    using to_double_cert [of 2 "323 / 50" 7273313398203351] by (simp add: pow2_def)
  have d3: "to_double (373 / 50) = Fin (8399213305045975 / 1125899906842624)"
    using to_double_cert [of 2 "373 / 50" 8399213305045975] by (simp add: pow2_def)
  have ne: "to_double (646 / 100) \<noteq> to_double (7456 / 1000)"
      "to_double (746 / 100) \<noteq> to_double (7456 / 1000)"
    using d1 d2 d3 by simp_all
  have pin: "\<bar>s\<bar> < 10 ^ 21 \<longrightarrow>
        (\<exists>n. toFixed2 (Fin s) = to_double (of_int n / 100) \<and> \<bar>of_int n / 100 - s\<bar> \<le> 1 / 200)"
    using toFixed2_nearest by blast
  have sub: "js_sub (Fin s) (Fin 1) = to_double (s - 1)" by simp
  have low: "s \<le> 1 \<longrightarrow> tp_first (trend_point (item\<lparr>score := Fin s\<rparr>)) = Fin 0"
    using trend_point_low by blast
  from general first [of item] zero nonneg pin sub low firsts lasts ex ne
  show ?thesis by (intro conjI) blast+
qed

theorem trend_point_values_witness:
  "\<bar>5 / 16 :: rat\<bar> < 10 ^ 21 \<and> (5 / 16 :: rat) \<le> 1
   \<and> toFixed2 (Fin (5 / 16)) = to_double (31 / 100)
   \<and> tp_first (trend_point ((hd fetchSkills_data)\<lparr>score := Fin (5 / 16)\<rparr>)) = Fin 0
   \<and> tp_last (trend_point ((hd fetchSkills_data)\<lparr>score := Fin (5 / 16)\<rparr>)) = to_double (31 / 100)"
  using trend_point_values [of fetchSkills_data "(hd fetchSkills_data)\<lparr>score := Fin (5 / 16)\<rparr>" "5 / 16"]
    trend_point_values [of fetchSkills_data "hd fetchSkills_data" "5 / 16"]
    toFixed2_cert [of "5 / 16" 31]
  by simp

text \<open>
  C9: \<open>radarData\<close> and \<open>trendData\<close> of the empty collection are empty; of any collection
  they have one point per record, in the order of the records, each radar point with
  the name and the score of its record and each trend point with the name of its
  record.
\<close>

theorem chart_data_one_point_per_record:
  "radarData [] = [] \<and> trendData [] = []
   \<and> length (radarData sks) = length sks \<and> length (trendData sks) = length sks
   \<and> map rp_skill (radarData sks) = map skill sks
   \<and> map rp_score (radarData sks) = map score sks
   \<and> map tp_skill (trendData sks) = map skill sks"
  by (simp add: radarData_def trendData_def radar_point_def trend_point_def)

section \<open>The report breaks pages between sections\<close>

lemma radar_lines_no_page: "radar_lines env ds y = (ops, y') \<Longrightarrow> AddPage \<notin> set ops"
proof (induction ds arbitrary: y ops y')
  case Nil
  then show ?case by simp
next
  case (Cons d ds)
  obtain ops1 y1 where a: "radar_lines env ds (y + 8) = (ops1, y1)"
    by (cases "radar_lines env ds (y + 8)")
  with Cons.IH [OF a] Cons.prems show ?case by auto
qed

lemma snippet_lines_no_page: "snippet_lines ls y = (ops, y') \<Longrightarrow> AddPage \<notin> set ops"
proof (induction ls arbitrary: y ops y')
  case Nil
  then show ?case by simp
next
  case (Cons l ls)
  obtain ops1 y1 where a: "snippet_lines ls (y + 5) = (ops1, y1)"
    by (cases "snippet_lines ls (y + 5)")
  with Cons.IH [OF a] Cons.prems show ?case by auto
qed

lemma snippets_no_page: "snippets env cs y = (ops, y') \<Longrightarrow> AddPage \<notin> set ops"
proof (induction cs arbitrary: y ops y')
  case Nil
  then show ?case by simp
next
  case (Cons code cs)
  obtain ops1 y1 where a: "snippet_lines (splitTextToSize env code 180) y = (ops1, y1)"
    by (cases "snippet_lines (splitTextToSize env code 180) y")
  obtain ops2 y2 where b: "snippets env cs y1 = (ops2, y2)"
    by (cases "snippets env cs y1")
  from a b Cons.prems have "ops = ops1 @ ops2" by simp
  with snippet_lines_no_page [OF a] Cons.IH [OF b] show ?case by simp
qed

lemma detail_section_no_page: "AddPage \<notin> set (fst (detail_section env item y))"
proof -
  have "AddPage \<notin> set (fst (snippets env cs y'))" for cs y'
    using snippets_no_page [of env cs y' "fst (snippets env cs y')" "snd (snippets env cs y')"]
    by simp
  then show ?thesis
    by (simp add: detail_section_def Let_def split_beta)
qed

lemma detail_section_head:
  "take 4 (fst (detail_section env item y)) = section_head env item y"
  by (simp add: detail_section_def section_head_def Let_def split_beta)

lemma split_after_prefix:
  assumes "x \<notin> set ops" "ops @ rest = pre @ x # post"
  shows "\<exists>pre'. pre = ops @ pre' \<and> rest = pre' @ x # post"
proof -
  from assms(2) obtain us where
    "(ops = pre @ us \<and> us @ rest = x # post) \<or> (ops @ us = pre \<and> rest = us @ x # post)"
    by (auto simp: append_eq_append_conv2)
  then show ?thesis
  proof
    assume a: "ops = pre @ us \<and> us @ rest = x # post"
    show ?thesis
    proof (cases us)
      case Nil
      with a show ?thesis by simp
    next
      case (Cons u us')
      with a have "u = x" by simp
      with a Cons assms(1) show ?thesis by simp
    qed
  next
    assume "ops @ us = pre \<and> rest = us @ x # post"
    then show ?thesis by blast
  qed
qed

lemma detail_sections_unfold:
  "detail_sections env n idx (item # items) y =
     fst (detail_section env item y) @
       (if 270 < snd (detail_section env item y) \<and> int idx < int n - 1
        then AddPage # detail_sections env n (Suc idx) items 15
        else detail_sections env n (Suc idx) items (snd (detail_section env item y)))"
  by (simp split: prod.splits)

lemma take4_append:
  "take 4 xs = section_head env item y \<Longrightarrow> take 4 (xs @ ys) = section_head env item y"
proof -
  assume a: "take 4 xs = section_head env item y"
  then have "length (take 4 xs) = 4" by (simp add: section_head_def)
  then have "4 \<le> length xs" by simp
  then show ?thesis using a by simp
qed

lemma page_then_head:
  "n = idx + length items \<Longrightarrow> detail_sections env n idx items y = pre @ AddPage # post \<Longrightarrow>
   \<exists>item\<in>set items. take 4 post = section_head env item 15"
proof (induction items arbitrary: idx y pre)
  case Nil
  then show ?case by simp
next
  case (Cons item items)
  let ?ops = "fst (detail_section env item y)"
  let ?y = "snd (detail_section env item y)"
  let ?rest = "if 270 < ?y \<and> int idx < int n - 1
        then AddPage # detail_sections env n (Suc idx) items 15
        else detail_sections env n (Suc idx) items ?y"
  have n: "n = Suc idx + length items" using Cons.prems(1) by simp
  from Cons.prems(2) have "?ops @ ?rest = pre @ AddPage # post"
    by (simp only: detail_sections_unfold)
  then obtain pre' where pre': "?rest = pre' @ AddPage # post"
    using split_after_prefix [OF detail_section_no_page] by blast
  show ?case
  proof (cases "270 < ?y \<and> int idx < int n - 1")
    case False
    with pre' have "detail_sections env n (Suc idx) items ?y = pre' @ AddPage # post" by simp
    from Cons.IH [OF n this] show ?thesis by auto
  next
    case True
    with pre' have eq: "AddPage # detail_sections env n (Suc idx) items 15 = pre' @ AddPage # post"
      by simp
    show ?thesis
    proof (cases pre')
      case (Cons p ps)
      with eq have "detail_sections env n (Suc idx) items 15 = ps @ AddPage # post" by simp
      from Cons.IH [OF n this] show ?thesis by auto
    next
      case Nil
      with eq have post: "post = detail_sections env n (Suc idx) items 15" by simp
      from True n obtain item' items' where items: "items = item' # items'"
        by (cases items) auto
      have "take 4 post = section_head env item' 15"
        unfolding post items detail_sections_unfold
        by (rule take4_append) (rule detail_section_head)
      with items show ?thesis by auto
    qed
  qed
qed

lemma count_pages:
  "n = idx + length items \<Longrightarrow>
   count_list (detail_sections env n idx items y) AddPage \<le> length items - 1"
proof (induction items arbitrary: idx y)
  case Nil
  then show ?case by simp
next
  case (Cons item items)
  have n: "n = Suc idx + length items" using Cons.prems by simp
  have c0: "count_list (fst (detail_section env item y)) AddPage = 0"
    using detail_section_no_page by (simp add: count_list_0_iff)
  show ?case
  proof (cases "270 < snd (detail_section env item y) \<and> int idx < int n - 1")
    case True
    with n have "1 \<le> length items" by (cases items) auto
    with Cons.IH [OF n, of 15] True c0 show ?thesis
      by (simp only: detail_sections_unfold) simp
  next
    case False
    with Cons.IH [OF n, of "snd (detail_section env item y)"] c0 show ?thesis
      by (simp only: detail_sections_unfold) simp
  qed
qed

lemma last_section_ends:
  "n = idx + Suc (length items) \<Longrightarrow>
   \<exists>pre y'. detail_sections env n idx (items @ [item]) y = pre @ fst (detail_section env item y')"
proof (induction items arbitrary: idx y)
  case Nil
  then have "detail_sections env n idx [item] y = [] @ fst (detail_section env item y)"
    by (simp only: detail_sections_unfold) simp
  then have "\<exists>pre y'. detail_sections env n idx [item] y = pre @ fst (detail_section env item y')"
    by blast
  then show ?case by simp
next
  case (Cons a items)
  have n: "n = Suc idx + Suc (length items)" using Cons.prems by simp
  let ?ops = "fst (detail_section env a y)"
  let ?y = "snd (detail_section env a y)"
  show ?case
  proof (cases "270 < ?y \<and> int idx < int n - 1")
    case True
    from Cons.IH [OF n, of 15] obtain pre y' where
      "detail_sections env n (Suc idx) (items @ [item]) 15 = pre @ fst (detail_section env item y')"
      by blast
    with True have "detail_sections env n idx ((a # items) @ [item]) y
        = (?ops @ AddPage # pre) @ fst (detail_section env item y')"
      by (simp only: append_Cons detail_sections_unfold) simp
    then show ?thesis by blast
  next
    case False
    from Cons.IH [OF n, of ?y] obtain pre y' where
      "detail_sections env n (Suc idx) (items @ [item]) ?y = pre @ fst (detail_section env item y')"
      by blast
    with False have "detail_sections env n idx ((a # items) @ [item]) y
        = (?ops @ pre) @ fst (detail_section env item y')"
      by (simp only: append_Cons detail_sections_unfold) simp
    then show ?thesis by blast
  qed
qed

lemma split_before_last:
  assumes "xs @ [s] = pre @ x # post" "x \<noteq> s"
  shows "\<exists>post'. post = post' @ [s] \<and> xs = pre @ x # post'"
proof (cases post rule: rev_cases)
  case Nil
  with assms show ?thesis by simp
next
  case (snoc post' z)
  with assms(1) have "xs @ [s] = (pre @ x # post') @ [z]" by simp
  then have "xs = pre @ x # post' \<and> s = z" by (simp only: append1_eq_conv)
  with snoc show ?thesis by simp
qed

lemma exportPDF_ops:
  "snd (exportPDF env st) =
     ([SetFontSize 18, Text ''Skill Radar Report'' 10 15, SetFontSize 12]
        @ fst (radar_lines env (radarData (skills st)) 25))
     @ detail_sections env (length (skills st)) 0 (skills st)
         (snd (radar_lines env (radarData (skills st)) 25) + 5)
     @ [Save ''skill_report.pdf'']"
  by (simp add: exportPDF_def split_beta)

lemma title_no_page:
  "AddPage \<notin> set ([SetFontSize 18, Text ''Skill Radar Report'' 10 15, SetFontSize 12]
        @ fst (radar_lines env rd 25))"
  using radar_lines_no_page [of env rd 25 "fst (radar_lines env rd 25)" "snd (radar_lines env rd 25)"]
  by simp

lemma exportPDF_page_then_head:
  assumes "snd (exportPDF env st) = pre @ AddPage # post"
  shows "\<exists>item\<in>set (skills st). take 4 post = section_head env item 15"
proof -
  let ?y = "snd (radar_lines env (radarData (skills st)) 25) + 5"
  let ?details = "detail_sections env (length (skills st)) 0 (skills st) ?y"
  from assms obtain pre' where "?details @ [Save ''skill_report.pdf''] = pre' @ AddPage # post"
    unfolding exportPDF_ops using split_after_prefix [OF title_no_page] by blast
  then obtain post' where post': "post = post' @ [Save ''skill_report.pdf'']"
      "?details = pre' @ AddPage # post'"
    using split_before_last [of ?details "Save ''skill_report.pdf''" pre' AddPage post] by auto
  from page_then_head [OF _ post'(2)] obtain item where
    "item \<in> set (skills st)" "take 4 post' = section_head env item 15" by auto
  with post'(1) take4_append show ?thesis by blast
qed

lemma exportPDF_count_pages:
  "count_list (snd (exportPDF env st)) AddPage \<le> length (skills st) - 1"
proof -
  have "count_list ([SetFontSize 18, Text ''Skill Radar Report'' 10 15, SetFontSize 12]
        @ fst (radar_lines env (radarData (skills st)) 25)) AddPage = 0"
    by (simp only: count_list_0_iff) (rule title_no_page)
  moreover have "count_list (detail_sections env (length (skills st)) 0 (skills st)
         (snd (radar_lines env (radarData (skills st)) 25) + 5)) AddPage \<le> length (skills st) - 1"
    by (rule count_pages) simp
  ultimately show ?thesis
    by (simp only: exportPDF_ops count_list_append) simp
qed

lemma exportPDF_last_section:
  "\<exists>pre y'. snd (exportPDF env (st\<lparr>skills := items @ [item]\<rparr>))
      = pre @ fst (detail_section env item y') @ [Save ''skill_report.pdf'']"
proof -
  let ?st = "st\<lparr>skills := items @ [item]\<rparr>"
  let ?y = "snd (radar_lines env (radarData (skills ?st)) 25) + 5"
  obtain pre y' where
    "detail_sections env (length (items @ [item])) 0 (items @ [item]) ?y
       = pre @ fst (detail_section env item y')"
    using last_section_ends [of "length (items @ [item])" 0 items env item ?y] by auto
  then have "snd (exportPDF env ?st) =
      (([SetFontSize 18, Text ''Skill Radar Report'' 10 15, SetFontSize 12]
        @ fst (radar_lines env (radarData (skills ?st)) 25)) @ pre)
      @ fst (detail_section env item y') @ [Save ''skill_report.pdf'']"
    by (simp add: exportPDF_ops)
  then show ?thesis by blast
qed

text \<open>
  C7: in the report, no page is started inside a detail section, whose first four calls
  are its header and its first body line, 6 apart on the same page. After a section is
  written in full, a page is started, and the cursor set to the top margin 15, exactly
  when the cursor is above the threshold 270 and the section is not that of the last
  record. So every \<open>addPage\<close> of the report is followed at once by the header and the
  first body line of a record's section at the top margin; the section of the last
  record is followed by nothing but \<open>save\<close>, wherever the cursor stands; and the
  page starts of a report number at most one less than its records.
\<close>

theorem page_break_policy:
  "AddPage \<notin> set (fst (detail_section env item y))
   \<and> take 4 (fst (detail_section env item y)) = section_head env item y
   \<and> detail_sections env n idx (item # items) y =
       fst (detail_section env item y) @
         (if 270 < snd (detail_section env item y) \<and> int idx < int n - 1
          then AddPage # detail_sections env n (Suc idx) items 15
          else detail_sections env n (Suc idx) items (snd (detail_section env item y)))
   \<and> detail_sections env (Suc idx) idx [item] y = fst (detail_section env item y)
   \<and> (snd (exportPDF env st) = pre @ AddPage # post \<longrightarrow>
        (\<exists>item'\<in>set (skills st). take 4 post = section_head env item' 15))
   \<and> count_list (snd (exportPDF env st)) AddPage \<le> length (skills st) - 1
   \<and> (\<exists>pre' y'. snd (exportPDF env (st\<lparr>skills := items @ [item]\<rparr>))
          = pre' @ fst (detail_section env item y') @ [Save ''skill_report.pdf''])"
proof -
  have "AddPage \<notin> set (fst (detail_section env item y))"
    by (rule detail_section_no_page)
  moreover have "take 4 (fst (detail_section env item y)) = section_head env item y"
    by (rule detail_section_head)
  moreover have "detail_sections env n idx (item # items) y =
       fst (detail_section env item y) @
         (if 270 < snd (detail_section env item y) \<and> int idx < int n - 1
          then AddPage # detail_sections env n (Suc idx) items 15
          else detail_sections env n (Suc idx) items (snd (detail_section env item y)))"
    by (rule detail_sections_unfold)
  moreover have "detail_sections env (Suc idx) idx [item] y = fst (detail_section env item y)"
    by (simp only: detail_sections_unfold) simp
  moreover have "snd (exportPDF env st) = pre @ AddPage # post \<longrightarrow>
        (\<exists>item'\<in>set (skills st). take 4 post = section_head env item' 15)"
    using exportPDF_page_then_head by blast
  moreover have "count_list (snd (exportPDF env st)) AddPage \<le> length (skills st) - 1"
    by (rule exportPDF_count_pages)
  moreover have "\<exists>pre' y'. snd (exportPDF env (st\<lparr>skills := items @ [item]\<rparr>))
          = pre' @ fst (detail_section env item y') @ [Save ''skill_report.pdf'']"
    by (rule exportPDF_last_section)
  ultimately show ?thesis by (intro conjI)
qed

lemma two_skills_eq:
  "two_skills =
     \<lparr>skills =
        [\<lparr>skill = ''Algorithms'', score = Fin (15 / 2),
          code_snippets = [''function add(a, b) { return a + b; }''],
          timestamps = [''2025-08-06T13:45Z'', ''2025-08-06T14:30Z''],
          iteration_depth = Some (Fin 3), ai_flagged = Some True\<rparr>,
         \<lparr>skill = ''Data Structures'', score = Fin (2308094809027379 / 281474976710656),
          code_snippets = [''class Stack { constructor() { this.items = []; } }''],
          timestamps = [''2025-08-06T11:00Z'', ''2025-08-06T12:30Z''],
          iteration_depth = Some (Fin 2), ai_flagged = Some False\<rparr>],
      selectedSkill = None, darkMode = False, loading = False, dash_error = [],
      updatingIdx = None\<rparr>"
  by (simp add: two_skills_def load_def fetchSkills_data_def initial_dashboard_def
      double_7_5 double_8_2)

lemma sample_report_page:
  "snd (exportPDF sample_env two_skills)
     = take 64 (snd (exportPDF sample_env two_skills)) @ AddPage
         # drop 65 (snd (exportPDF sample_env two_skills))"
  unfolding two_skills_eq by code_simp

lemma second_record_eq:
  "fetchSkills_data ! 1 =
     \<lparr>skill = ''Data Structures'', score = Fin (2308094809027379 / 281474976710656),
      code_snippets = [''class Stack { constructor() { this.items = []; } }''],
      timestamps = [''2025-08-06T11:00Z'', ''2025-08-06T12:30Z''],
      iteration_depth = Some (Fin 2), ai_flagged = Some False\<rparr>"
  "fetchSkills_data ! 0 =
     \<lparr>skill = ''Algorithms'', score = Fin (15 / 2),
      code_snippets = [''function add(a, b) { return a + b; }''],
      timestamps = [''2025-08-06T13:45Z'', ''2025-08-06T14:30Z''],
      iteration_depth = Some (Fin 3), ai_flagged = Some True\<rparr>"
  by (simp_all add: fetchSkills_data_def double_7_5 double_8_2)

lemma sample_report_values:
  "take 4 (drop 65 (snd (exportPDF sample_env two_skills)))
     = section_head sample_env (fetchSkills_data ! 1) 15
   \<and> count_list (snd (exportPDF sample_env two_skills)) AddPage = 1
   \<and> snd (detail_section sample_env (fetchSkills_data ! 0) 46) = 328
   \<and> snd (detail_section sample_env (fetchSkills_data ! 1) 15) = 291
   \<and> drop 120 (snd (exportPDF sample_env two_skills))
      = [Text ''class Stack { constructor() { this.items = []; } }'' 14 284, Save ''skill_report.pdf'']"
  unfolding two_skills_eq second_record_eq by code_simp

theorem page_break_policy_witness:
  "snd (exportPDF sample_env two_skills)
     = take 64 (snd (exportPDF sample_env two_skills)) @ AddPage
         # drop 65 (snd (exportPDF sample_env two_skills))
   \<and> take 4 (drop 65 (snd (exportPDF sample_env two_skills)))
     = section_head sample_env (fetchSkills_data ! 1) 15
   \<and> count_list (snd (exportPDF sample_env two_skills)) AddPage = 1
   \<and> snd (detail_section sample_env (fetchSkills_data ! 0) 46) = 328
   \<and> snd (detail_section sample_env (fetchSkills_data ! 1) 15) = 291
   \<and> drop 120 (snd (exportPDF sample_env two_skills))
      = [Text ''class Stack { constructor() { this.items = []; } }'' 14 284, Save ''skill_report.pdf'']"
proof -
  from page_break_policy [of sample_env _ _ _ _ _ two_skills
      "take 64 (snd (exportPDF sample_env two_skills))"
      "drop 65 (snd (exportPDF sample_env two_skills))"] sample_report_page
  have "\<exists>item'\<in>set (skills two_skills).
      take 4 (drop 65 (snd (exportPDF sample_env two_skills))) = section_head sample_env item' 15"
    by blast
  with sample_report_page sample_report_values show ?thesis by blast
qed

section \<open>The report reads the collection\<close>

lemma doc_call_last: "doc_call (length h) c (h @ [Doc cs]) = Some (h @ [Doc (cs @ [c])])"
  by (simp add: doc_call_def)

lemma read_skill_bound: "read_skill a h = Some item \<Longrightarrow> a < length h"
  by (simp add: read_skill_def split: if_splits)

lemma read_skill_old: "a < length h \<Longrightarrow> read_skill a (h @ [x]) = read_skill a h"
  by (simp add: read_skill_def nth_append)

lemma read_array_old: "r < length h \<Longrightarrow> read_array r (h @ [x]) = read_array r h"
  by (simp add: read_array_def nth_append)

lemma read_array_bound: "read_array r h = Some as \<Longrightarrow> r < length h"
  by (simp add: read_array_def split: if_splits)

lemma radar_store_pure:
  "radar_store env (length h) ps y (h @ [Doc cs])
     = Some (h @ [Doc (cs @ fst (radar_lines env ps y))], snd (radar_lines env ps y))"
  by (induction ps arbitrary: y cs) (simp_all add: doc_call_last split_beta)

lemma lines_store_pure:
  "lines_store (length h) ls y (h @ [Doc cs])
     = Some (h @ [Doc (cs @ fst (snippet_lines ls y))], snd (snippet_lines ls y))"
  by (induction ls arbitrary: y cs) (simp_all add: doc_call_last split_beta)

lemma snippets_store_pure:
  "snippets_store env (length h) codes y (h @ [Doc cs])
     = Some (h @ [Doc (cs @ fst (snippets env codes y))], snd (snippets env codes y))"
  by (induction codes arbitrary: y cs) (simp_all add: lines_store_pure split_beta)

lemma section_store_pure:
  assumes "read_skill a h = Some item"
  shows "section_store env (length h) a y (h @ [Doc cs])
     = Some (h @ [Doc (cs @ fst (detail_section env item y))], snd (detail_section env item y))"
proof -
  have r: "read_skill a (h @ [x]) = Some item" for x
    using assms read_skill_bound [OF assms] by (simp add: read_skill_old)
  show ?thesis
    by (simp add: section_store_def detail_section_def doc_call_last r snippets_store_pure
        Let_def split_beta)
qed

lemma sections_store_pure:
  "those (map (\<lambda>a. read_skill a h) as) = Some sks \<Longrightarrow>
   sections_store env (length h) n idx as y (h @ [Doc cs])
     = Some (h @ [Doc (cs @ detail_sections env n idx sks y)])"
proof (induction as arbitrary: sks idx y cs)
  case Nil
  then show ?case by simp
next
  case (Cons a as)
  from Cons.prems obtain item rest where
    item: "read_skill a h = Some item" and rest: "those (map (\<lambda>a. read_skill a h) as) = Some rest"
    and sks: "sks = item # rest"
    by (auto split: option.splits)
  show ?case
    by (simp add: sks section_store_pure [OF item] Cons.IH [OF rest] doc_call_last split_beta)
qed

lemma those_length: "those xs = Some ys \<Longrightarrow> length ys = length xs"
  by (induction xs arbitrary: ys) (auto split: option.splits)

lemma exportPDF_store_pure:
  assumes "store_skills h r = Some sks"
  shows "exportPDF_store env (radarData sks) r h
     = Some (h @ [Doc (snd (exportPDF env (st\<lparr>skills := sks\<rparr>)))])"
proof -
  from assms obtain as where as: "read_array r h = Some as"
    and recs: "those (map (\<lambda>a. read_skill a h) as) = Some sks"
    by (auto simp: store_skills_def split: Option.bind_splits)
  have ra: "read_array r (h @ [x]) = Some as" for x
    using as read_array_bound [OF as] by (simp add: read_array_old)
  have len: "length as = length sks" using those_length [OF recs] by simp
  have d: "doc_call (length h) c (h @ [Doc cs]) = Some (h @ [Doc (cs @ [c])])" for c cs
    by (rule doc_call_last)
  show ?thesis
    by (simp add: exportPDF_store_def exportPDF_def Let_def split_beta d radar_store_pure ra
        sections_store_pure [OF recs] len)
qed

text \<open>
  C10: \<open>exportPDF\<close> is read-only over the collection. Run on any store that holds the
  array of skills and its records, it returns; every object the store held before the
  call is the same after it, so the array, its order and every field of every record
  are as they were; the one change is the new document at the end of the store, which
  holds the calls of the report. The function calls no state setter either: the state
  of the dashboard after the call is the state before.
\<close>

theorem exportPDF_keeps_records:
  "(store_skills h r = Some sks \<longrightarrow>
      (\<exists>h'. exportPDF_store env (radarData sks) r h = Some h'
         \<and> take (length h) h' = h
         \<and> store_skills h' r = Some sks
         \<and> h' = h @ [Doc (snd (exportPDF env (st\<lparr>skills := sks\<rparr>)))]))
   \<and> fst (exportPDF env st) = st"
proof -
  have "store_skills (h @ [x]) r = Some sks" if "store_skills h r = Some sks" for x
  proof -
    from that obtain as where as: "read_array r h = Some as"
      and recs: "those (map (\<lambda>a. read_skill a h) as) = Some sks"
      by (auto simp: store_skills_def split: Option.bind_splits)
    have "list_all (\<lambda>a. a < length h) as" using recs
    proof (induction as arbitrary: sks)
      case Nil
      then show ?case by simp
    next
      case (Cons a as)
      then show ?case by (auto split: option.splits dest: read_skill_bound)
    qed
    then have m: "map (\<lambda>a. read_skill a (h @ [x])) as = map (\<lambda>a. read_skill a h) as"
      by (simp add: list_all_iff read_skill_old)
    have "those (map (\<lambda>a. read_skill a (h @ [x])) as) = Some sks"
      by (subst m) (rule recs)
    moreover have "read_array r (h @ [x]) = Some as"
      using as read_array_bound [OF as] by (simp add: read_array_old)
    ultimately show ?thesis by (simp add: store_skills_def)
  qed
  then show ?thesis
    using exportPDF_store_pure [of h r sks env st]
    by (simp add: exportPDF_def split_beta)
qed

theorem exportPDF_keeps_records_witness:
  "store_skills sample_store 3 = Some fetchSkills_data
   \<and> map_option (take 4) (exportPDF_store sample_env (radarData fetchSkills_data) 3 sample_store)
       = Some sample_store
   \<and> map_option length (exportPDF_store sample_env (radarData fetchSkills_data) 3 sample_store)
       = Some 5
   \<and> map_option (\<lambda>h'. store_skills h' 3)
        (exportPDF_store sample_env (radarData fetchSkills_data) 3 sample_store)
       = Some (Some fetchSkills_data)"
proof -
  have s: "store_skills sample_store 3 = Some fetchSkills_data"
    by (simp add: store_skills_def sample_store_def read_array_def read_skill_def
        fetchSkills_data_def nth_append)
  have l: "length sample_store = 4"
    by (simp add: sample_store_def fetchSkills_data_def)
  from exportPDF_keeps_records [of sample_store 3 fetchSkills_data sample_env initial_dashboard] s
  obtain h' where "exportPDF_store sample_env (radarData fetchSkills_data) 3 sample_store = Some h'"
    "take (length sample_store) h' = sample_store" "store_skills h' 3 = Some fetchSkills_data"
    "h' = sample_store @ [Doc (snd (exportPDF sample_env (initial_dashboard\<lparr>skills := fetchSkills_data\<rparr>)))]"
    by blast
  with s l show ?thesis by simp
qed

end
